theory Spec2Isabelle
  imports Main "HOL-Library.Word"
begin

section \<open>Errors\<close>

text \<open>
  The Go \<^verbatim>\<open>error\<close> values that tvdb.go can return, by dynamic type.
  \<^item> \<open>TransportError\<close>: what \<^verbatim>\<open>http.Get\<close> or \<^verbatim>\<open>ioutil.ReadAll\<close> returned;
  \<^item> \<open>SyntaxError\<close>: a \<^verbatim>\<open>*xml.SyntaxError\<close> (the document is not well-formed XML);
  \<^item> \<open>EOF\<close>: \<^verbatim>\<open>io.EOF\<close>, which \<^verbatim>\<open>xml.Unmarshal\<close> returns for a body that ends before
    any element starts (an empty body, plain text);
  \<^item> \<open>UnmarshalError\<close>: any other error of \<^verbatim>\<open>encoding/xml\<close>;
  \<^item> \<open>NumError\<close>: a \<^verbatim>\<open>*strconv.NumError\<close>;
  \<^item> \<open>ErrorString\<close>: a value made by \<^verbatim>\<open>errors.New\<close>.
\<close>

datatype error =
    TransportError string
  | SyntaxError string
  | EOF
  | UnmarshalError string
  | NumError string
  | ErrorString string

section \<open>PipeList\<close>

type_synonym PipeList = "string list"

text \<open>
  \<^verbatim>\<open>strings.Trim(s, cutset)\<close> with a cutset of one ASCII byte is
  \<^verbatim>\<open>trimLeftByte(trimRightByte(s, c), c)\<close>; each of the two is a loop that drops one
  byte while the string is not empty and its first (last) byte is \<open>c\<close>.
\<close>

fun trimLeftByte :: "string \<Rightarrow> char \<Rightarrow> string" where
  "trimLeftByte [] c = []"
| "trimLeftByte (x # xs) c = (if x = c then trimLeftByte xs c else x # xs)"

function trimRightByte :: "string \<Rightarrow> char \<Rightarrow> string" where
  "trimRightByte s c = (if s \<noteq> [] \<and> last s = c then trimRightByte (butlast s) c else s)"
  by pat_completeness auto
termination
  by (relation "measure (\<lambda>(s, c). length s)") auto

declare trimRightByte.simps [simp del]

definition Trim :: "string \<Rightarrow> char \<Rightarrow> string" where
  "Trim s c = trimLeftByte (trimRightByte s c) c"

text \<open>
  \<^verbatim>\<open>strings.IndexByte\<close>: the position of the first occurrence, \<open>None\<close> for Go's \<open>-1\<close>.
\<close>

fun IndexByte :: "string \<Rightarrow> char \<Rightarrow> nat option" where
  "IndexByte [] c = None"
| "IndexByte (x # xs) c = (if x = c then Some 0 else map_option Suc (IndexByte xs c))"

text \<open>
  \<^verbatim>\<open>strings.Split(s, sep)\<close> with a separator of one byte: the loop of \<^verbatim>\<open>genSplit\<close>
  cuts at the first separator and goes on with the rest, until none is left; the
  rest is the last element.
\<close>

function Split :: "string \<Rightarrow> char \<Rightarrow> string list" where
  "Split s sep =
     (case IndexByte s sep of
        None \<Rightarrow> [s]
      | Some m \<Rightarrow> take m s # Split (drop (m + 1) s) sep)"
  by pat_completeness auto
termination
proof (relation "measure (\<lambda>(s, sep). length s)")
  show "wf (measure (\<lambda>(s, sep). length s))"
    by simp
next
  fix s :: string and sep :: char and m :: nat
  assume "IndexByte s sep = Some m"
  then have "s \<noteq> []"
    by (cases s) auto
  then show "((drop (m + 1) s, sep), (s, sep)) \<in> measure (\<lambda>(s, sep). length s)"
    by simp
qed

declare Split.simps [simp del]

text \<open>
  \<^verbatim>\<open>PipeList.UnmarshalXML\<close> (tvdb.go, lines 19-27). The argument is the outcome of
  \<^verbatim>\<open>decoder.DecodeElement(&content, &start)\<close>: an error of the XML decoder, or the
  character data of the element.
\<close>

definition UnmarshalXML :: "error + string \<Rightarrow> error + PipeList" where
  "UnmarshalXML decoded =
     (case decoded of
        Inl err \<Rightarrow> Inl err
      | Inr content \<Rightarrow> Inr (Split (Trim content (CHR ''|'')) (CHR ''|'')))"

text \<open>
  The decoder as section 4.1 of the specification words it: exactly one leading and
  one trailing delimiter are removed, when present, and the rest is split.
\<close>

definition spec_trim_one :: "string \<Rightarrow> char \<Rightarrow> string" where
  "spec_trim_one s c =
     (let s1 = (if s \<noteq> [] \<and> hd s = c then tl s else s)
      in if s1 \<noteq> [] \<and> last s1 = c then butlast s1 else s1)"

definition spec_decodeDelimitedList :: "string \<Rightarrow> PipeList" where
  "spec_decodeDelimitedList s = Split (spec_trim_one s (CHR ''|'')) (CHR ''|'')"

section \<open>Data model\<close>

text \<open>The structs of tvdb.go, lines 29-104. A \<^verbatim>\<open>uint64\<close> is a 64-bit word.\<close>

record Episode =
  ID :: "64 word"
  CombinedEpisodeNumber :: string
  CombinedSeason :: "64 word"
  DvdChapter :: string
  DvdDiscID :: string
  DvdEpisodeNumber :: string
  DvdSeason :: string
  Director :: PipeList
  EpImgFlag :: string
  EpisodeName :: string
  EpisodeNumber :: "64 word"
  FirstAired :: string
  GuestStars :: string
  ImdbID :: string
  Language :: string
  Overview :: string
  ProductionCode :: string
  Rating :: string
  RatingCount :: string
  SeasonNumber :: "64 word"
  Writer :: PipeList
  AbsoluteNumber :: string
  Filename :: string
  LastUpdated :: string
  SeasonID :: "64 word"
  SeriesID :: "64 word"
  ThumbAdded :: string
  ThumbHeight :: string
  ThumbWidth :: string

text \<open>
  \<open>Seasons\<close> is a Go map: \<open>None\<close> is the nil map, \<open>Some m\<close> an allocated one. The
  elements are pointers to episodes that nothing else refers to; they are kept by value.
\<close>

record Series =
  ID :: "64 word"
  Actors :: PipeList
  AirsDayOfWeek :: string
  AirsTime :: string
  ContentRating :: string
  FirstAired :: string
  Genre :: PipeList
  ImdbID :: string
  Language :: string
  Network :: string
  NetworkID :: string
  Overview :: string
  Rating :: string
  RatingCount :: string
  Runtime :: string
  SeriesID :: string
  SeriesName :: string
  Status :: string
  Added :: string
  AddedBy :: string
  Banner :: string
  Fanart :: string
  LastUpdated :: string
  Poster :: string
  Zap2ItID :: string
  Seasons :: "(64 word \<rightharpoonup> Episode list) option"

record SeriesList =
  Series :: "Series list"

record EpisodeList =
  Episodes :: "Episode list"

record TVDB =
  APIKey :: string

section \<open>The collaborators outside tvdb.go\<close>

text \<open>
  The network and the XML and regular-expression libraries are not part of tvdb.go;
  they are parameters of the model. \<open>'w\<close> is the state of the world the transport
  talks to, \<open>'r\<close> an HTTP response.
  \<^item> \<open>Get\<close> is \<^verbatim>\<open>http.Get\<close>, \<open>ReadAll\<close> is \<^verbatim>\<open>ioutil.ReadAll(response.Body)\<close>;
  \<^item> \<open>Unmarshal_SeriesList\<close> and \<open>Unmarshal_EpisodeList\<close> are \<^verbatim>\<open>xml.Unmarshal\<close> into
    an empty list, \<open>Unmarshal_Series\<close> is \<^verbatim>\<open>xml.Unmarshal\<close> over an existing series,
    which it changes in place also when it fails;
  \<^item> \<open>QueryEscape\<close> is \<^verbatim>\<open>url.QueryEscape\<close>;
  \<^item> \<open>FindAllSubmatch_seriesId\<close> gives, for each match of \<^verbatim>\<open>reSearchSeries\<close> in the
    page, in the order of the page, its submatch \<^verbatim>\<open>group[2]\<close> (the group seriesId).
\<close>

record ('w, 'r) env =
  Get :: "string \<Rightarrow> 'w \<Rightarrow> (error + 'r) \<times> 'w"
  ReadAll :: "'r \<Rightarrow> 'w \<Rightarrow> (error + string) \<times> 'w"
  Unmarshal_SeriesList :: "string \<Rightarrow> error + SeriesList"
  Unmarshal_Series :: "string \<Rightarrow> Series \<Rightarrow> error option \<times> Series"
  Unmarshal_EpisodeList :: "string \<Rightarrow> error + EpisodeList"
  QueryEscape :: "string \<Rightarrow> string"
  FindAllSubmatch_seriesId :: "string \<Rightarrow> string list"

text \<open>
  The state of the network: the world, and the URLs requested so far, oldest first.
  Every call of \<^verbatim>\<open>http.Get\<close> adds its URL.
\<close>

record 'w net =
  world :: 'w
  requests :: "string list"

definition http_Get :: "('w, 'r) env \<Rightarrow> string \<Rightarrow> 'w net \<Rightarrow> (error + 'r) \<times> 'w net" where
  "http_Get env url n =
     (case Get env url (world n) of
        (r, w) \<Rightarrow> (r, \<lparr>world = w, requests = requests n @ [url]\<rparr>))"

definition ioutil_ReadAll :: "('w, 'r) env \<Rightarrow> 'r \<Rightarrow> 'w net \<Rightarrow> (error + string) \<times> 'w net" where
  "ioutil_ReadAll env response n =
     (case ReadAll env response (world n) of
        (r, w) \<Rightarrow> (r, n\<lparr>world := w\<rparr>))"

text \<open>
  \<^verbatim>\<open>encoding/xml\<close> has no decoding into a map: it never assigns the field
  \<open>Seasons\<close>. A series decoded into a new list has the nil map, and a series decoded
  in place keeps the map it had.
\<close>

definition xml_Unmarshal_SeriesList :: "('w, 'r) env \<Rightarrow> string \<Rightarrow> error + SeriesList" where
  "xml_Unmarshal_SeriesList env data =
     (case Unmarshal_SeriesList env data of
        Inl e \<Rightarrow> Inl e
      | Inr sl \<Rightarrow> Inr (sl\<lparr>Series := map (\<lambda>s. s\<lparr>Seasons := None\<rparr>) (Series sl)\<rparr>))"

definition xml_Unmarshal_Series ::
  "('w, 'r) env \<Rightarrow> string \<Rightarrow> Series \<Rightarrow> error option \<times> Series" where
  "xml_Unmarshal_Series env data series =
     (case Unmarshal_Series env data series of
        (e, series') \<Rightarrow> (e, series'\<lparr>Seasons := Seasons series\<rparr>))"

section \<open>Numbers as text\<close>

text \<open>\<^verbatim>\<open>strconv.FormatUint(i, 10)\<close>, which is also what \<^verbatim>\<open>%v\<close> prints for a uint64.\<close>

definition digits :: string where
  "digits = ''0123456789''"

fun formatDecimal :: "nat \<Rightarrow> string" where
  "formatDecimal n =
     (if n < 10 then [digits ! n]
      else formatDecimal (n div 10) @ [digits ! (n mod 10)])"

declare formatDecimal.simps [simp del]

definition FormatUint :: "64 word \<Rightarrow> string" where
  "FormatUint i = formatDecimal (unat i)"

text \<open>
  \<^verbatim>\<open>strconv.ParseUint(s, 10, 64)\<close>: the empty string and a byte that is not a decimal
  digit give 0 and a syntax error; a value above \<open>2^64 - 1\<close> gives \<open>2^64 - 1\<close> and a
  range error, found at the digit that overflows.
\<close>

definition maxUint64 :: "64 word" where
  "maxUint64 = - 1"

definition cutoff :: "64 word" where
  "cutoff = maxUint64 div 10 + 1"

fun ParseUint_digits :: "64 word \<Rightarrow> string \<Rightarrow> 64 word \<times> error option" where
  "ParseUint_digits n [] = (n, None)"
| "ParseUint_digits n (c # cs) =
     (if 48 \<le> (of_char c :: nat) \<and> (of_char c :: nat) \<le> 57 then
        (if cutoff \<le> n then (maxUint64, Some (NumError ''value out of range''))
         else
           (let n10 = n * 10; n1 = n10 + of_nat (of_char c - 48)
            in if n1 < n10 then (maxUint64, Some (NumError ''value out of range''))
               else ParseUint_digits n1 cs))
      else (0, Some (NumError ''invalid syntax'')))"

definition ParseUint :: "string \<Rightarrow> 64 word \<times> error option" where
  "ParseUint s =
     (if s = [] then (0, Some (NumError ''invalid syntax'')) else ParseUint_digits 0 s)"

section \<open>The catalog client\<close>

definition seriesURL :: "TVDB \<Rightarrow> 64 word \<Rightarrow> string" where
  "seriesURL t ident =
     ''http://thetvdb.com/api/'' @ APIKey t @ ''/series/'' @ FormatUint ident @ ''/en.xml''"

definition imdbURL :: "string \<Rightarrow> string" where
  "imdbURL ident = ''http://thetvdb.com/api/GetSeriesByRemoteID.php?imdbid='' @ ident"

definition detailURL :: "TVDB \<Rightarrow> 64 word \<Rightarrow> string" where
  "detailURL t ident =
     ''http://thetvdb.com/api/'' @ APIKey t @ ''/series/'' @ FormatUint ident @ ''/all/en.xml''"

definition searchURL :: "('w, 'r) env \<Rightarrow> string \<Rightarrow> string" where
  "searchURL env name =
     ''http://thetvdb.com/?string='' @ QueryEscape env name
       @ ''&searchseriesid=&tab=listseries&function=Search''"

text \<open>
  The first lines of every operation: \<^verbatim>\<open>http.Get(url)\<close>, then
  \<^verbatim>\<open>ioutil.ReadAll(response.Body)\<close>, each returning its error at once.
\<close>

definition fetch :: "('w, 'r) env \<Rightarrow> string \<Rightarrow> 'w net \<Rightarrow> (error + string) \<times> 'w net" where
  "fetch env url n =
     (case http_Get env url n of
        (Inl e, n1) \<Rightarrow> (Inl e, n1)
      | (Inr response, n1) \<Rightarrow> ioutil_ReadAll env response n1)"

text \<open>
  Lines 142-153, shared by \<^verbatim>\<open>GetSeriesByID\<close> and \<^verbatim>\<open>GetSeriesByIMDBID\<close>: decode as a
  list of series, and take the only one.
\<close>

definition single_series :: "('w, 'r) env \<Rightarrow> string \<Rightarrow> error + Series" where
  "single_series env data =
     (case xml_Unmarshal_SeriesList env data of
        Inl e \<Rightarrow> Inl e
      | Inr seriesList \<Rightarrow>
          (if length (Series seriesList) \<noteq> 1
           then Inl (ErrorString ''incorrect number of series'')
           else Inr (Series seriesList ! 0)))"

text \<open>\<^verbatim>\<open>GetSeriesByID\<close> (lines 130-154).\<close>

definition GetSeriesByID ::
  "('w, 'r) env \<Rightarrow> TVDB \<Rightarrow> 64 word \<Rightarrow> 'w net \<Rightarrow> (error + Series) \<times> 'w net" where
  "GetSeriesByID env t ident n =
     (case fetch env (seriesURL t ident) n of
        (Inl e, n') \<Rightarrow> (Inl e, n')
      | (Inr data, n') \<Rightarrow> (single_series env data, n'))"

text \<open>\<^verbatim>\<open>GetSeriesByIMDBID\<close> (lines 157-181).\<close>

definition GetSeriesByIMDBID ::
  "('w, 'r) env \<Rightarrow> TVDB \<Rightarrow> string \<Rightarrow> 'w net \<Rightarrow> (error + Series) \<times> 'w net" where
  "GetSeriesByIMDBID env t ident n =
     (case fetch env (imdbURL ident) n of
        (Inl e, n') \<Rightarrow> (Inl e, n')
      | (Inr data, n') \<Rightarrow> (single_series env data, n'))"

text \<open>
  Line 220: \<^verbatim>\<open>series.Seasons[k] = append(series.Seasons[k], episode)\<close>. Reading a key
  the map does not have gives the nil slice.
\<close>

definition appendEpisode ::
  "(64 word \<rightharpoonup> Episode list) \<Rightarrow> Episode \<Rightarrow> (64 word \<rightharpoonup> Episode list)" where
  "appendEpisode seasons episode =
     seasons(SeasonNumber episode \<mapsto>
       (case seasons (SeasonNumber episode) of None \<Rightarrow> [] | Some l \<Rightarrow> l) @ [episode])"

text \<open>The Go expression \<^verbatim>\<open>series.Seasons[k]\<close>, read: nil for the nil map and for a missing key.\<close>

definition Seasons_index :: "Series \<Rightarrow> 64 word \<Rightarrow> Episode list" where
  "Seasons_index series k =
     (case Seasons series of
        None \<Rightarrow> []
      | Some m \<Rightarrow> (case m k of None \<Rightarrow> [] | Some l \<Rightarrow> l))"

text \<open>Lines 215-221: the map is made when it is nil, then every episode is appended.\<close>

definition aggregate :: "Series \<Rightarrow> Episode list \<Rightarrow> Series" where
  "aggregate series episodes =
     (let seasons = (case Seasons series of None \<Rightarrow> Map.empty | Some m \<Rightarrow> m)
      in series\<lparr>Seasons := Some (foldl appendEpisode seasons episodes)\<rparr>)"

text \<open>
  Lines 206-222 of \<^verbatim>\<open>GetSeriesDetail\<close>: the two decodings of the same bytes and the
  aggregation. The series is changed in place, so it is returned also with an error.
\<close>

definition GetSeriesDetail_decode ::
  "('w, 'r) env \<Rightarrow> string \<Rightarrow> Series \<Rightarrow> error option \<times> Series" where
  "GetSeriesDetail_decode env data series =
     (case xml_Unmarshal_Series env data series of
        (Some e, series1) \<Rightarrow> (Some e, series1)
      | (None, series1) \<Rightarrow>
          (case Unmarshal_EpisodeList env data of
             Inl e \<Rightarrow> (Some e, series1)
           | Inr episodeList \<Rightarrow> (None, aggregate series1 (Episodes episodeList))))"

text \<open>\<^verbatim>\<open>GetSeriesDetail\<close> (lines 194-223).\<close>

definition GetSeriesDetail ::
  "('w, 'r) env \<Rightarrow> TVDB \<Rightarrow> Series \<Rightarrow> 'w net \<Rightarrow> (error option \<times> Series) \<times> 'w net" where
  "GetSeriesDetail env t series n =
     (case fetch env (detailURL t (Series.ID series)) n of
        (Inl e, n') \<Rightarrow> ((Some e, series), n')
      | (Inr data, n') \<Rightarrow> (GetSeriesDetail_decode env data series, n'))"

text \<open>
  \<^verbatim>\<open>GetSeriesListDetail\<close> works on pointers: \<^verbatim>\<open>seriesList\<close> is a \<^verbatim>\<open>*SeriesList\<close>, its
  field \<^verbatim>\<open>Series\<close> a slice of \<^verbatim>\<open>*Series\<close>, and \<^verbatim>\<open>GetSeriesDetail\<close> changes the series
  behind the pointer it is given. A pointer is \<open>None\<close> (nil) or \<open>Some a\<close> with an
  address \<open>a\<close>; the store holds the series at every address. The same address may be
  in the slice more than once. Reading through nil panics.
\<close>

type_synonym store = "nat \<Rightarrow> Series"

datatype 'a outcome = Returned 'a | Panicked

text \<open>
  \<^verbatim>\<open>GetSeriesDetail\<close> called with a pointer: for nil, \<^verbatim>\<open>series.ID\<close> in line 195 panics
  before anything is sent; otherwise the series at the address is what
  \<^verbatim>\<open>GetSeriesDetail\<close> makes of it, also when an error is returned.
\<close>

definition GetSeriesDetail_at ::
  "('w, 'r) env \<Rightarrow> TVDB \<Rightarrow> nat option \<Rightarrow> store \<Rightarrow> 'w net
     \<Rightarrow> (error option outcome \<times> store) \<times> 'w net" where
  "GetSeriesDetail_at env t series h n =
     (case series of
        None \<Rightarrow> ((Panicked, h), n)
      | Some a \<Rightarrow>
          (case GetSeriesDetail env t (h a) n of
             ((e, series'), n') \<Rightarrow> ((Returned e, h(a := series')), n')))"

text \<open>The loop of \<^verbatim>\<open>GetSeriesListDetail\<close> (lines 185-189) over the slice of pointers.\<close>

fun GetSeriesListDetail_loop ::
  "('w, 'r) env \<Rightarrow> TVDB \<Rightarrow> nat option list \<Rightarrow> store \<Rightarrow> 'w net
     \<Rightarrow> (error option outcome \<times> store) \<times> 'w net" where
  "GetSeriesListDetail_loop env t [] h n = ((Returned None, h), n)"
| "GetSeriesListDetail_loop env t (series # rest) h n =
     (case GetSeriesDetail_at env t series h n of
        ((Returned None, h'), n') \<Rightarrow> GetSeriesListDetail_loop env t rest h' n'
      | ((Returned (Some e), h'), n') \<Rightarrow> ((Returned (Some e), h'), n')
      | ((Panicked, h'), n') \<Rightarrow> ((Panicked, h'), n'))"

text \<open>
  \<^verbatim>\<open>GetSeriesListDetail\<close> (lines 184-191). The argument is the slice
  \<^verbatim>\<open>seriesList.Series\<close>, or \<open>None\<close> when \<^verbatim>\<open>seriesList\<close> itself is nil.
\<close>

definition GetSeriesListDetail ::
  "('w, 'r) env \<Rightarrow> TVDB \<Rightarrow> nat option list option \<Rightarrow> store \<Rightarrow> 'w net
     \<Rightarrow> (error option outcome \<times> store) \<times> 'w net" where
  "GetSeriesListDetail env t seriesList h n =
     (case seriesList of
        None \<Rightarrow> ((Panicked, h), n)
      | Some pointers \<Rightarrow> GetSeriesListDetail_loop env t pointers h n)"

subsection \<open>SearchSeries\<close>

text \<open>
  The variables of the loop of \<^verbatim>\<open>SearchSeries\<close> (lines 242-276) and the network.
\<close>

record 'w scan =
  seriesList :: SeriesList
  doneSeriesIDs :: "64 word set"
  err :: "error option"
  net :: "'w net"

text \<open>How one round of the loop ends: with \<^verbatim>\<open>continue\<close>, \<^verbatim>\<open>break\<close> or \<^verbatim>\<open>return\<close>.\<close>

datatype 'a flow = Continue 'a | Break 'a | Return 'a

fun flow_state :: "'a flow \<Rightarrow> 'a" where
  "flow_state (Continue s) = s"
| "flow_state (Break s) = s"
| "flow_state (Return s) = s"

text \<open>
  The body of the loop (lines 246-275) for one match. \<^verbatim>\<open>maxResults\<close> is a Go int,
  compared with a length.
\<close>

definition SearchSeries_body ::
  "('w, 'r) env \<Rightarrow> TVDB \<Rightarrow> int \<Rightarrow> string \<Rightarrow> 'w scan \<Rightarrow> 'w scan flow" where
  "SearchSeries_body env t maxResults grp st =
     (case ParseUint grp of
        (seriesID, perr) \<Rightarrow>
          (if seriesID \<in> doneSeriesIDs st then Continue (st\<lparr>err := perr\<rparr>)
           else if perr \<noteq> None then Return (st\<lparr>err := perr\<rparr>)
           else
             (case GetSeriesByID env t seriesID (net st) of
                (Inl e, n') \<Rightarrow>
                  (case e of
                     SyntaxError m \<Rightarrow> Continue (st\<lparr>err := None, net := n'\<rparr>)
                   | _ \<Rightarrow> Return (st\<lparr>err := Some e, net := n'\<rparr>))
              | (Inr series, n') \<Rightarrow>
                  (let st' = st\<lparr>seriesList :=
                                   (seriesList st)\<lparr>Series := Series (seriesList st) @ [series]\<rparr>,
                                 doneSeriesIDs := insert seriesID (doneSeriesIDs st),
                                 err := None, net := n'\<rparr>
                   in if int (length (Series (seriesList st'))) = maxResults
                      then Break st' else Continue st'))))"

fun SearchSeries_loop ::
  "('w, 'r) env \<Rightarrow> TVDB \<Rightarrow> int \<Rightarrow> string list \<Rightarrow> 'w scan \<Rightarrow> 'w scan flow" where
  "SearchSeries_loop env t maxResults [] st = Continue st"
| "SearchSeries_loop env t maxResults (grp # groups) st =
     (case SearchSeries_body env t maxResults grp st of
        Continue st' \<Rightarrow> SearchSeries_loop env t maxResults groups st'
      | Break st' \<Rightarrow> Break st'
      | Return st' \<Rightarrow> Return st')"

text \<open>The variables when the loop starts (lines 229-243).\<close>

definition scan_init :: "'w net \<Rightarrow> 'w scan" where
  "scan_init n = \<lparr>seriesList = \<lparr>Series = []\<rparr>, doneSeriesIDs = {}, err = None, net = n\<rparr>"

text \<open>\<^verbatim>\<open>SearchSeries\<close> (lines 229-278).\<close>

definition SearchSeries ::
  "('w, 'r) env \<Rightarrow> TVDB \<Rightarrow> string \<Rightarrow> int \<Rightarrow> 'w net \<Rightarrow> (SeriesList \<times> error option) \<times> 'w net" where
  "SearchSeries env t name maxResults n =
     (case fetch env (searchURL env name) n of
        (Inl e, n') \<Rightarrow> ((\<lparr>Series = []\<rparr>, Some e), n')
      | (Inr buf, n') \<Rightarrow>
          (let st = flow_state (SearchSeries_loop env t maxResults
                      (FindAllSubmatch_seriesId env buf) (scan_init n'))
           in ((seriesList st, err st), net st)))"

section \<open>A catalog for the examples\<close>

text \<open>The zero values \<^verbatim>\<open>Series{}\<close> and \<^verbatim>\<open>Episode{}\<close>.\<close>

definition zeroSeries :: Series where
  "zeroSeries =
     \<lparr>Series.ID = 0, Actors = [], AirsDayOfWeek = [], AirsTime = [], ContentRating = [],
      Series.FirstAired = [], Genre = [], Series.ImdbID = [], Series.Language = [],
      Network = [], NetworkID = [], Series.Overview = [], Series.Rating = [],
      Series.RatingCount = [], Runtime = [], Series.SeriesID = [], SeriesName = [],
      Status = [], Added = [], AddedBy = [], Banner = [], Fanart = [],
      Series.LastUpdated = [], Poster = [], Zap2ItID = [], Seasons = None\<rparr>"

definition zeroEpisode :: Episode where
  "zeroEpisode =
     \<lparr>Episode.ID = 0, CombinedEpisodeNumber = [], CombinedSeason = 0, DvdChapter = [],
      DvdDiscID = [], DvdEpisodeNumber = [], DvdSeason = [], Director = [], EpImgFlag = [],
      EpisodeName = [], EpisodeNumber = 0, Episode.FirstAired = [], GuestStars = [],
      Episode.ImdbID = [], Episode.Language = [], Episode.Overview = [],
      ProductionCode = [], Episode.Rating = [], Episode.RatingCount = [],
      SeasonNumber = 0, Writer = [], AbsoluteNumber = [], Filename = [],
      Episode.LastUpdated = [], SeasonID = 0, Episode.SeriesID = 0, ThumbAdded = [],
      ThumbHeight = [], ThumbWidth = []\<rparr>"

text \<open>
  A catalog given by tables: the body (or the transport error) behind each URL, what
  each body decodes to as a list of series and as a list of episodes, and the series
  IDs the pattern finds in it. A URL that is not in the table cannot be reached; a
  body that is not in a table is not well-formed XML and has no match. Decoding in
  place writes the field \<open>Overview\<close>, to be seen.
\<close>

definition example_env ::
  "(string \<rightharpoonup> error + string) \<Rightarrow> (string \<rightharpoonup> error + SeriesList)
     \<Rightarrow> (string \<rightharpoonup> error + EpisodeList) \<Rightarrow> (string \<rightharpoonup> string list)
     \<Rightarrow> (unit, string) env" where
  "example_env pages seriesLists episodeLists matches =
     \<lparr>Get = (\<lambda>url w.
        (case pages url of
           None \<Rightarrow> Inl (TransportError ''connection refused'')
         | Some r \<Rightarrow> r, w)),
      ReadAll = (\<lambda>r w. (Inr r, w)),
      Unmarshal_SeriesList = (\<lambda>data.
        case seriesLists data of
          None \<Rightarrow> Inl (SyntaxError ''unexpected EOF'')
        | Some r \<Rightarrow> r),
      Unmarshal_Series = (\<lambda>data series.
        case episodeLists data of
          None \<Rightarrow> (Some (SyntaxError ''unexpected EOF''), series)
        | Some r \<Rightarrow> (None, series\<lparr>Series.Overview := data\<rparr>)),
      Unmarshal_EpisodeList = (\<lambda>data.
        case episodeLists data of
          None \<Rightarrow> Inl (SyntaxError ''unexpected EOF'')
        | Some r \<Rightarrow> r),
      QueryEscape = (\<lambda>s. s),
      FindAllSubmatch_seriesId = (\<lambda>buf.
        case matches buf of None \<Rightarrow> [] | Some groups \<Rightarrow> groups)\<rparr>"

definition net0 :: "unit net" where
  "net0 = \<lparr>world = (), requests = []\<rparr>"

definition tvdb0 :: TVDB where
  "tvdb0 = \<lparr>APIKey = ''KEY''\<rparr>"

text \<open>A catalog with one, no and two series behind three URLs.\<close>

definition env3 :: "(unit, string) env" where
  "env3 = example_env
     [seriesURL tvdb0 71663 \<mapsto> Inr ''one'', seriesURL tvdb0 5 \<mapsto> Inr ''none'',
      imdbURL ''tt0903747'' \<mapsto> Inr ''two'']
     [''one'' \<mapsto> Inr \<lparr>Series = [zeroSeries\<lparr>Series.ID := 71663\<rparr>]\<rparr>,
      ''none'' \<mapsto> Inr \<lparr>Series = []\<rparr>,
      ''two'' \<mapsto> Inr \<lparr>Series = [zeroSeries, zeroSeries]\<rparr>]
     Map.empty Map.empty"

text \<open>An episode that has only an ID and a season number.\<close>

definition ep :: "64 word \<Rightarrow> 64 word \<Rightarrow> Episode" where
  "ep i k = zeroEpisode\<lparr>Episode.ID := i, SeasonNumber := k\<rparr>"


text \<open>
  A catalog with the detail documents of the series 1 and 3; the request for the
  series 2 times out.
\<close>

definition env4 :: "(unit, string) env" where
  "env4 = example_env
     [detailURL tvdb0 1 \<mapsto> Inr ''d1'',
      detailURL tvdb0 2 \<mapsto> Inl (TransportError ''timeout''),
      detailURL tvdb0 3 \<mapsto> Inr ''d3'']
     Map.empty
     [''d1'' \<mapsto> Inr \<lparr>Episodes = [ep 10 1]\<rparr>, ''d3'' \<mapsto> Inr \<lparr>Episodes = [ep 30 1]\<rparr>]
     Map.empty"

text \<open>A store with the series 1, 2 and 3 at the addresses 0, 1 and 2.\<close>

definition store0 :: store where
  "store0 a = zeroSeries\<lparr>Series.ID := (if a = 0 then 1 else if a = 1 then 2 else 3)\<rparr>"

text \<open>
  Two catalogs for \<^verbatim>\<open>SearchSeries\<close>. The search page for "lost" has the anchors of the
  series 71663, 71663 and 79349, the one for "x" those of 79349, 5 and 71663. In
  \<open>env_ok\<close> the documents of 71663 and 79349 each hold one series; in \<open>env_bad\<close> the
  document of 71663 is not well-formed. The series 5 cannot be reached in either.
\<close>

definition search_pages :: "string \<rightharpoonup> error + string" where
  "search_pages =
     [''http://thetvdb.com/?string=lost&searchseriesid=&tab=listseries&function=Search''
        \<mapsto> Inr ''page'',
      ''http://thetvdb.com/?string=x&searchseriesid=&tab=listseries&function=Search''
        \<mapsto> Inr ''page2'',
      seriesURL tvdb0 71663 \<mapsto> Inr ''a'',
      seriesURL tvdb0 79349 \<mapsto> Inr ''b'']"

definition search_matches :: "string \<rightharpoonup> string list" where
  "search_matches =
     [''page'' \<mapsto> [''71663'', ''71663'', ''79349''],
      ''page2'' \<mapsto> [''79349'', ''5'', ''71663'']]"

definition env_ok :: "(unit, string) env" where
  "env_ok = example_env search_pages
     [''a'' \<mapsto> Inr \<lparr>Series = [zeroSeries\<lparr>Series.ID := 71663\<rparr>]\<rparr>,
      ''b'' \<mapsto> Inr \<lparr>Series = [zeroSeries\<lparr>Series.ID := 79349\<rparr>]\<rparr>]
     Map.empty search_matches"

definition env_bad :: "(unit, string) env" where
  "env_bad = example_env search_pages
     [''b'' \<mapsto> Inr \<lparr>Series = [zeroSeries\<lparr>Series.ID := 79349\<rparr>]\<rparr>]
     Map.empty search_matches"

text \<open>
  Two more catalogs. In \<open>env_eof\<close> the document of 71663 is an empty body, for which
  \<^verbatim>\<open>xml.Unmarshal\<close> returns \<^verbatim>\<open>io.EOF\<close>. In \<open>env_same\<close> the requests for 71663 and for
  79349 are both answered with the document of the series 79349.
\<close>

definition env_eof :: "(unit, string) env" where
  "env_eof = example_env (search_pages(seriesURL tvdb0 71663 \<mapsto> Inr []))
     [[] \<mapsto> Inl EOF,
      ''b'' \<mapsto> Inr \<lparr>Series = [zeroSeries\<lparr>Series.ID := 79349\<rparr>]\<rparr>]
     Map.empty search_matches"

definition env_same :: "(unit, string) env" where
  "env_same = example_env (search_pages(seriesURL tvdb0 71663 \<mapsto> Inr ''b''))
     [''b'' \<mapsto> Inr \<lparr>Series = [zeroSeries\<lparr>Series.ID := 79349\<rparr>]\<rparr>]
     Map.empty search_matches"

text \<open>
  The selection that claim C2 describes, in its words: the IDs in the order of the
  scan, each at its first occurrence only (\<open>unseen\<close> skips what is in the set of IDs
  met so far), cut at \<open>maxResults\<close> when that is positive.
\<close>

fun unseen :: "'a set \<Rightarrow> 'a list \<Rightarrow> 'a list" where
  "unseen seen [] = []"
| "unseen seen (i # ids) =
     (if i \<in> seen then unseen seen ids else i # unseen (insert i seen) ids)"

definition spec_first_occurrences :: "'a list \<Rightarrow> 'a list" where
  "spec_first_occurrences ids = unseen {} ids"



section \<open>Properties of the delimited-list decoder\<close>

lemma trimLeftByte_dropWhile: "trimLeftByte s c = dropWhile (\<lambda>x. x = c) s"
  by (induction s) auto

lemma trimRightByte_snoc:
  "trimRightByte (s @ [x]) c = (if x = c then trimRightByte s c else s @ [x])"
  by (subst trimRightByte.simps) simp

lemma trimRightByte_Nil: "trimRightByte [] c = []"
  by (subst trimRightByte.simps) simp

lemma trimRightByte_dropWhile: "trimRightByte s c = rev (dropWhile (\<lambda>x. x = c) (rev s))"
  by (induction s rule: rev_induct) (auto simp: trimRightByte_Nil trimRightByte_snoc)

lemma Trim_dropWhile:
  "Trim s c = dropWhile (\<lambda>x. x = c) (rev (dropWhile (\<lambda>x. x = c) (rev s)))"
  by (simp add: Trim_def trimLeftByte_dropWhile trimRightByte_dropWhile)

lemma Split_Nil: "Split [] sep = [[]]"
  by (subst Split.simps) simp

lemma Trim_replicate: "Trim (replicate n c) c = []"
proof -
  have "dropWhile (\<lambda>x. x = c) (replicate n c) = []"
    by (induction n) auto
  then show ?thesis
    by (simp add: Trim_dropWhile)
qed

lemma dropWhile_hd_id: "s \<noteq> [] \<Longrightarrow> \<not> P (hd s) \<Longrightarrow> dropWhile P s = s"
  by (cases s) auto

lemma Trim_id:
  assumes "s = [] \<or> (hd s \<noteq> c \<and> last s \<noteq> c)"
  shows "Trim s c = s"
proof (cases "s = []")
  case True
  then show ?thesis by (simp add: Trim_dropWhile)
next
  case False
  with assms have h: "hd s \<noteq> c" and l: "last s \<noteq> c"
    by auto
  from False l have "dropWhile (\<lambda>x. x = c) (rev s) = rev s"
    by (intro dropWhile_hd_id) (auto simp: hd_rev)
  moreover from False h have "dropWhile (\<lambda>x. x = c) s = s"
    by (intro dropWhile_hd_id) auto
  ultimately show ?thesis
    by (simp add: Trim_dropWhile)
qed

lemma Trim_wrap: "Trim (c # s @ [c]) c = Trim s c"
proof (cases "\<forall>x \<in> set s. x = c")
  case True
  then have a: "dropWhile (\<lambda>x. x = c) (rev s @ [c]) = []" "dropWhile (\<lambda>x. x = c) (rev s) = []"
    by auto
  show ?thesis
    by (simp add: Trim_dropWhile a)
next
  case False
  then obtain x where x: "x \<in> set (rev s)" "\<not> x = c"
    by auto
  have a: "dropWhile (\<lambda>x. x = c) (rev s @ [c]) = dropWhile (\<lambda>x. x = c) (rev s) @ [c]"
    using x by (rule dropWhile_append1)
  show ?thesis
    by (simp add: Trim_dropWhile a)
qed

lemma last_dropWhile_keep: "dropWhile P xs \<noteq> [] \<Longrightarrow> last (dropWhile P xs) = last xs"
  by (induction xs) (auto split: if_splits)

text \<open>What is left after \<open>Trim\<close> neither begins nor ends with the byte.\<close>

lemma Trim_no_edge:
  assumes "Trim s c \<noteq> []"
  shows "hd (Trim s c) \<noteq> c \<and> last (Trim s c) \<noteq> c"
proof -
  let ?P = "\<lambda>x. x = c"
  let ?D = "dropWhile ?P (rev s)"
  from assms have ne: "dropWhile ?P (rev ?D) \<noteq> []"
    by (simp add: Trim_dropWhile)
  have D: "?D \<noteq> []"
  proof
    assume "?D = []"
    with ne show False by simp
  qed
  from ne have "\<not> ?P (hd (dropWhile ?P (rev ?D)))"
    by (rule hd_dropWhile)
  moreover have "last (dropWhile ?P (rev ?D)) = last (rev ?D)"
    using ne by (rule last_dropWhile_keep)
  moreover have "last (rev ?D) = hd ?D"
    using D by (simp add: last_rev)
  moreover have "\<not> ?P (hd ?D)"
    using D by (rule hd_dropWhile)
  ultimately show ?thesis
    by (simp add: Trim_dropWhile)
qed

lemma Split_nonempty: "Split s sep \<noteq> []"
  by (subst Split.simps) (simp split: option.splits)

text \<open>
  C1, as stated, fails. The claim says that exactly one leading and one trailing
  \<open>|\<close> are removed before the split. On the raw string \<open>||a||\<close> the decoder of
  tvdb.go gives the one element \<open>a\<close>, and the decoder the claim describes gives
  three: the empty string, \<open>a\<close>, the empty string.
\<close>

theorem UnmarshalXML_trims_one_counterexample:
  "UnmarshalXML (Inr ''||a||'') = Inr [''a'']
   \<and> spec_decodeDelimitedList ''||a||'' = [[], ''a'', []]
   \<and> UnmarshalXML (Inr ''||a||'') \<noteq> Inr (spec_decodeDelimitedList ''||a||'')"
  by (simp add: UnmarshalXML_def spec_decodeDelimitedList_def spec_trim_one_def
      Trim_dropWhile Split.simps)

text \<open>
  C1, amended. For every raw string, \<^verbatim>\<open>PipeList.UnmarshalXML\<close> removes every leading and
  every trailing \<open>|\<close> (all of them, not one on each side) and splits what is left on
  \<open>|\<close>. So decoding \<open>|s|\<close> gives what decoding \<open>s\<close> gives; and when \<open>s\<close> is empty or
  neither begins nor ends with \<open>|\<close>, the wrapping pair is all that is removed and the
  result is \<open>s\<close> split on \<open>|\<close>.
\<close>

theorem UnmarshalXML_trims_every_delimiter:
  "UnmarshalXML (Inr content) =
     Inr (Split (dropWhile (\<lambda>x. x = CHR ''|'')
                  (rev (dropWhile (\<lambda>x. x = CHR ''|'') (rev content)))) (CHR ''|''))
   \<and> UnmarshalXML (Inr (''|'' @ s @ ''|'')) = UnmarshalXML (Inr s)
   \<and> (s = [] \<or> (hd s \<noteq> CHR ''|'' \<and> last s \<noteq> CHR ''|'') \<longrightarrow>
        UnmarshalXML (Inr (''|'' @ s @ ''|'')) = Inr (Split s (CHR ''|'')))"
  using Trim_wrap [of "CHR ''|''" s] Trim_id [of s "CHR ''|''"]
  by (auto simp add: UnmarshalXML_def Trim_dropWhile)

theorem UnmarshalXML_trims_every_delimiter_witness:
  "UnmarshalXML (Inr ''|||a|b||'') = Inr [''a'', ''b'']
   \<and> UnmarshalXML (Inr (''|'' @ ''a|b'' @ ''|'')) = UnmarshalXML (Inr ''a|b'')
   \<and> (hd ''a|b'' \<noteq> CHR ''|'' \<and> last ''a|b'' \<noteq> CHR ''|'')
   \<and> UnmarshalXML (Inr (''|'' @ ''a|b'' @ ''|'')) = Inr (Split ''a|b'' (CHR ''|''))
   \<and> Split ''a|b'' (CHR ''|'') = [''a'', ''b'']"
  using UnmarshalXML_trims_every_delimiter [of "''|||a|b||''" "''a|b''"]
  by (auto simp add: Split.simps)

text \<open>
  C9, as stated, fails. \<^verbatim>\<open>PipeList.UnmarshalXML\<close> does fail: when
  \<^verbatim>\<open>decoder.DecodeElement\<close> cannot read the element (the document ends inside it,
  say), lines 21-23 return that error and no list.
\<close>

theorem UnmarshalXML_never_fails_counterexample:
  "UnmarshalXML (Inl (SyntaxError ''unexpected EOF'')) = Inl (SyntaxError ''unexpected EOF'')
   \<and> \<not> (\<exists>l. UnmarshalXML (Inl (SyntaxError ''unexpected EOF'')) = Inr l)"
  by (simp add: UnmarshalXML_def)

text \<open>
  C9, amended. \<^verbatim>\<open>PipeList.UnmarshalXML\<close> returns an error exactly when
  \<^verbatim>\<open>DecodeElement\<close> does, and then that error. Whatever raw string the element holds,
  it returns a list and no error, and the list is not empty; for the empty raw string,
  and for a raw string made of delimiters only, the list is the one empty string.
\<close>

theorem UnmarshalXML_succeeds_on_every_raw_string:
  "(UnmarshalXML decoded = Inl e) = (decoded = Inl e)
   \<and> (\<exists>l. UnmarshalXML (Inr content) = Inr l \<and> l \<noteq> [])
   \<and> UnmarshalXML (Inr []) = Inr [[]]
   \<and> UnmarshalXML (Inr (replicate n (CHR ''|''))) = Inr [[]]"
  using Trim_replicate [of 0 "CHR ''|''"]
  by (cases decoded)
     (simp_all add: UnmarshalXML_def Split_nonempty Trim_replicate Split_Nil)

section \<open>Properties of the catalog client\<close>

lemmas example_eval =
  fetch_def http_Get_def ioutil_ReadAll_def example_env_def net0_def tvdb0_def
  seriesURL_def imdbURL_def detailURL_def searchURL_def
  FormatUint_def formatDecimal.simps digits_def
  xml_Unmarshal_SeriesList_def xml_Unmarshal_Series_def single_series_def

lemma single_series_cases:
  assumes "xml_Unmarshal_SeriesList env data = Inr sl"
  shows "(length (Series sl) \<noteq> 1 \<longrightarrow>
            single_series env data = Inl (ErrorString ''incorrect number of series''))
       \<and> (\<forall>s. Series sl = [s] \<longrightarrow> single_series env data = Inr s \<and> Seasons s = None)"
proof -
  from assms obtain sl0 where sl0: "Unmarshal_SeriesList env data = Inr sl0"
    and sl: "sl = sl0\<lparr>Series := map (\<lambda>s. s\<lparr>Seasons := None\<rparr>) (Series sl0)\<rparr>"
    by (auto simp: xml_Unmarshal_SeriesList_def split: sum.splits)
  have "\<forall>s \<in> set (Series sl). Seasons s = None"
    by (auto simp: sl)
  then show ?thesis
    using assms by (auto simp: single_series_def)
qed

text \<open>
  C3. When the body was fetched and decodes as a list of series, \<^verbatim>\<open>GetSeriesByID\<close> and
  \<^verbatim>\<open>GetSeriesByIMDBID\<close> return the error "incorrect number of series" if the list
  has no entry or more than one, and if it has exactly one they return that series,
  whose \<open>Seasons\<close> is the nil map.
\<close>

theorem exactly_one_series_or_error:
  "(fetch env (seriesURL t ident) n = (Inr data, n')
      \<and> xml_Unmarshal_SeriesList env data = Inr sl \<longrightarrow>
        (length (Series sl) \<noteq> 1 \<longrightarrow>
           GetSeriesByID env t ident n = (Inl (ErrorString ''incorrect number of series''), n'))
      \<and> (\<forall>s. Series sl = [s] \<longrightarrow>
           GetSeriesByID env t ident n = (Inr s, n') \<and> Seasons s = None))
   \<and> (fetch env (imdbURL imdb) m = (Inr data', m')
      \<and> xml_Unmarshal_SeriesList env data' = Inr sl' \<longrightarrow>
        (length (Series sl') \<noteq> 1 \<longrightarrow>
           GetSeriesByIMDBID env t imdb m = (Inl (ErrorString ''incorrect number of series''), m'))
      \<and> (\<forall>s. Series sl' = [s] \<longrightarrow>
           GetSeriesByIMDBID env t imdb m = (Inr s, m') \<and> Seasons s = None))"
  using single_series_cases [of env data sl] single_series_cases [of env data' sl']
  by (simp add: GetSeriesByID_def GetSeriesByIMDBID_def)

theorem exactly_one_series_or_error_witness:
  "GetSeriesByID env3 tvdb0 71663 net0 =
     (Inr (zeroSeries\<lparr>Series.ID := 71663\<rparr>), \<lparr>world = (), requests = [seriesURL tvdb0 71663]\<rparr>)
   \<and> GetSeriesByID env3 tvdb0 5 net0 =
     (Inl (ErrorString ''incorrect number of series''),
      \<lparr>world = (), requests = [seriesURL tvdb0 5]\<rparr>)
   \<and> GetSeriesByIMDBID env3 tvdb0 ''tt0903747'' net0 =
     (Inl (ErrorString ''incorrect number of series''),
      \<lparr>world = (), requests = [imdbURL ''tt0903747'']\<rparr>)"
proof -
  have f1: "fetch env3 (seriesURL tvdb0 71663) net0 =
              (Inr ''one'', \<lparr>world = (), requests = [seriesURL tvdb0 71663]\<rparr>)"
    and f2: "fetch env3 (seriesURL tvdb0 5) net0 =
              (Inr ''none'', \<lparr>world = (), requests = [seriesURL tvdb0 5]\<rparr>)"
    and f3: "fetch env3 (imdbURL ''tt0903747'') net0 =
              (Inr ''two'', \<lparr>world = (), requests = [imdbURL ''tt0903747'']\<rparr>)"
    by (simp_all add: env3_def example_eval)
  have d1: "xml_Unmarshal_SeriesList env3 ''one'' = Inr \<lparr>Series = [zeroSeries\<lparr>Series.ID := 71663\<rparr>]\<rparr>"
    and d2: "xml_Unmarshal_SeriesList env3 ''none'' = Inr \<lparr>Series = []\<rparr>"
    and d3: "xml_Unmarshal_SeriesList env3 ''two'' = Inr \<lparr>Series = [zeroSeries, zeroSeries]\<rparr>"
    by (simp_all add: env3_def example_eval zeroSeries_def)
  from exactly_one_series_or_error [of env3 tvdb0 71663 net0 "''one''" _ _ "''tt0903747''" net0 "''two''"]
    exactly_one_series_or_error [of env3 tvdb0 5 net0 "''none''" _ _ "''tt0903747''" net0 "''two''"]
    f1 f2 f3 d1 d2 d3
  show ?thesis
    by simp
qed

subsection \<open>Aggregation by season\<close>

lemma filter_other_season:
  "k \<notin> SeasonNumber ` set episodes \<Longrightarrow> filter (\<lambda>e. SeasonNumber e = k) episodes = []"
  by (induction episodes) auto

lemma foldl_appendEpisode:
  "foldl appendEpisode m episodes k =
     (if k \<in> SeasonNumber ` set episodes
      then Some ((case m k of None \<Rightarrow> [] | Some l \<Rightarrow> l)
                  @ filter (\<lambda>e. SeasonNumber e = k) episodes)
      else m k)"
proof (induction episodes arbitrary: m)
  case Nil
  then show ?case by simp
next
  case (Cons e episodes)
  show ?case
    unfolding foldl_Cons Cons.IH
    by (auto simp: appendEpisode_def filter_other_season)
qed

lemma sum_length_by_season:
  "finite A \<Longrightarrow> SeasonNumber ` set episodes \<subseteq> A \<Longrightarrow>
     (\<Sum>k\<in>A. length (filter (\<lambda>e. SeasonNumber e = k) episodes)) = length episodes"
proof (induction episodes)
  case Nil
  then show ?case by simp
next
  case (Cons e episodes)
  have "(\<Sum>k\<in>A. length (filter (\<lambda>e. SeasonNumber e = k) (e # episodes)))
        = (\<Sum>k\<in>A. (if SeasonNumber e = k then 1 else 0)
                    + length (filter (\<lambda>e. SeasonNumber e = k) episodes))"
    by (intro sum.cong) auto
  also have "\<dots> = (\<Sum>k\<in>A. if SeasonNumber e = k then 1 else 0)
                   + (\<Sum>k\<in>A. length (filter (\<lambda>e. SeasonNumber e = k) episodes))"
    by (simp add: sum.distrib)
  also have "(\<Sum>k\<in>A. if SeasonNumber e = k then 1 else 0) = (1::nat)"
    using Cons.prems by (simp add: sum.delta')
  also have "(\<Sum>k\<in>A. length (filter (\<lambda>e. SeasonNumber e = k) episodes)) = length episodes"
    using Cons by simp
  finally show ?case by simp
qed

lemma Seasons_index_aggregate:
  "Seasons_index (aggregate series episodes) k =
     Seasons_index series k @ filter (\<lambda>e. SeasonNumber e = k) episodes"
  by (auto simp: Seasons_index_def aggregate_def foldl_appendEpisode filter_other_season
      split: option.splits)

text \<open>
  C7. Lines 215-221 on a series whose \<open>Seasons\<close> is the nil map or an empty map, and
  a list of N episodes with K distinct season numbers: afterwards \<open>Seasons\<close> is a map
  with exactly those K keys, the lengths of its lists sum to N, and the list of a key
  is the episodes of that season in the order of the list they came from.
\<close>

theorem aggregate_groups_by_season:
  assumes "Seasons series = None \<or> Seasons series = Some Map.empty"
  shows "\<exists>m. Seasons (aggregate series episodes) = Some m
           \<and> card (dom m) = card (SeasonNumber ` set episodes)
           \<and> (\<Sum>k\<in>dom m. length (the (m k))) = length episodes
           \<and> (\<forall>k. m k = (if k \<in> SeasonNumber ` set episodes
                           then Some (filter (\<lambda>e. SeasonNumber e = k) episodes)
                           else None))"
proof -
  let ?S = "SeasonNumber ` set episodes"
  let ?m = "foldl appendEpisode Map.empty episodes"
  have agg: "Seasons (aggregate series episodes) = Some ?m"
    using assms by (auto simp: aggregate_def)
  have m: "?m k = (if k \<in> ?S then Some (filter (\<lambda>e. SeasonNumber e = k) episodes) else None)"
    for k
    by (simp add: foldl_appendEpisode)
  have d: "dom ?m = ?S"
    by (auto simp: m dom_def)
  have "(\<Sum>k\<in>dom ?m. length (the (?m k)))
        = (\<Sum>k\<in>?S. length (filter (\<lambda>e. SeasonNumber e = k) episodes))"
    unfolding d by (intro sum.cong) (simp_all add: m)
  also have "\<dots> = length episodes"
    by (rule sum_length_by_season) simp_all
  finally have s: "(\<Sum>k\<in>dom ?m. length (the (?m k))) = length episodes" .
  from agg d s m show ?thesis
    by (intro exI [of _ ?m]) simp
qed


theorem aggregate_groups_by_season_witness:
  "Seasons zeroSeries = None
   \<and> (\<exists>m. Seasons (aggregate zeroSeries [ep 1 1, ep 2 2, ep 3 1]) = Some m
          \<and> card (dom m) = 2
          \<and> (\<Sum>k\<in>dom m. length (the (m k))) = 3
          \<and> m 1 = Some [ep 1 1, ep 3 1] \<and> m 2 = Some [ep 2 2] \<and> m 3 = None)"
proof -
  have z: "Seasons zeroSeries = None"
    by (simp add: zeroSeries_def)
  have s: "SeasonNumber ` set [ep 1 1, ep 2 2, ep 3 1] = {1, 2}"
    by (auto simp: ep_def)
  from aggregate_groups_by_season [of zeroSeries "[ep 1 1, ep 2 2, ep 3 1]"] z
  obtain m where m: "Seasons (aggregate zeroSeries [ep 1 1, ep 2 2, ep 3 1]) = Some m"
    "card (dom m) = card (SeasonNumber ` set [ep 1 1, ep 2 2, ep 3 1])"
    "(\<Sum>k\<in>dom m. length (the (m k))) = length [ep 1 1, ep 2 2, ep 3 1]"
    "\<And>k. m k = (if k \<in> SeasonNumber ` set [ep 1 1, ep 2 2, ep 3 1]
                  then Some (filter (\<lambda>e. SeasonNumber e = k) [ep 1 1, ep 2 2, ep 3 1])
                  else None)"
    by blast
  have "m 1 = Some [ep 1 1, ep 3 1]" "m 2 = Some [ep 2 2]" "m 3 = None"
    unfolding m(4) s by (simp_all add: ep_def)
  with z m(1,2,3) s show ?thesis
    by simp
qed




subsection \<open>Detail for a list of series\<close>

lemma requests_fetch: "fetch env url n = (r, n') \<Longrightarrow> requests n' = requests n @ [url]"
  by (auto simp: fetch_def http_Get_def ioutil_ReadAll_def split: prod.splits sum.splits)


lemma GetSeriesListDetail_loop_append:
  assumes "GetSeriesListDetail_loop env t pre h n = ((Returned None, h1), n1)"
  shows "GetSeriesListDetail_loop env t (pre @ rest) h n = GetSeriesListDetail_loop env t rest h1 n1"
  using assms
proof (induction pre arbitrary: h n)
  case Nil
  then show ?case by simp
next
  case (Cons p pre)
  obtain r h' n' where d: "GetSeriesDetail_at env t p h n = ((r, h'), n')"
    by (metis surj_pair)
  with Cons.prems have "r = Returned None"
    by (cases r; simp split: option.splits)
  with d Cons show ?case
    by simp
qed




text \<open>A nil entry panics before any request, and nothing after it is attempted.\<close>

lemma GetSeriesListDetail_nil_entry:
  assumes "GetSeriesListDetail_loop env t pre h n = ((Returned None, h1), n1)"
  shows "GetSeriesListDetail env t (Some (pre @ None # post)) h n = ((Panicked, h1), n1)"
  using GetSeriesListDetail_loop_append [OF assms, of "None # post"]
  by (simp add: GetSeriesListDetail_def GetSeriesDetail_at_def)

text \<open>
  A pointer that is in the slice twice: the series behind it is enriched twice, and
  the second request uses the ID the first call left.
\<close>

lemma GetSeriesListDetail_same_pointer_twice:
  "\<exists>h'. GetSeriesListDetail env4 tvdb0 (Some [Some 0, Some 0]) store0 net0 =
          ((Returned None, h'),
           \<lparr>world = (), requests = [detailURL tvdb0 1, detailURL tvdb0 1]\<rparr>)
        \<and> Seasons_index (h' 0) 1 = [ep 10 1, ep 10 1]"
proof -
  let ?s1 = "zeroSeries\<lparr>Series.ID := 1\<rparr>"
  let ?n1 = "\<lparr>world = (), requests = [detailURL tvdb0 1]\<rparr>"
  let ?n2 = "\<lparr>world = (), requests = [detailURL tvdb0 1, detailURL tvdb0 1]\<rparr>"
  let ?s1' = "aggregate (?s1\<lparr>Series.Overview := ''d1''\<rparr>) [ep 10 1]"
  let ?s1'' = "aggregate (?s1'\<lparr>Series.Overview := ''d1''\<rparr>) [ep 10 1]"
  have id: "Series.ID ?s1 = 1" "Series.ID ?s1' = 1"
    by (simp_all add: aggregate_def)
  have f1: "fetch env4 (detailURL tvdb0 1) net0 = (Inr ''d1'', ?n1)"
    and f2: "fetch env4 (detailURL tvdb0 1) ?n1 = (Inr ''d1'', ?n2)"
    by (simp_all add: env4_def example_eval)
  have d: "GetSeriesDetail_decode env4 ''d1'' s = (None, aggregate (s\<lparr>Series.Overview := ''d1''\<rparr>) [ep 10 1])"
    for s
    by (simp add: GetSeriesDetail_decode_def env4_def example_env_def xml_Unmarshal_Series_def)
  have g1: "GetSeriesDetail env4 tvdb0 ?s1 net0 = ((None, ?s1'), ?n1)"
    unfolding GetSeriesDetail_def id f1 by (simp add: d)
  have g2: "GetSeriesDetail env4 tvdb0 ?s1' ?n1 = ((None, ?s1''), ?n2)"
    unfolding GetSeriesDetail_def id f2 by (simp add: d)
  have s: "store0 0 = ?s1"
    by (simp add: store0_def)
  have ov: "Seasons_index (x\<lparr>Series.Overview := y\<rparr>) k = Seasons_index x k" for x y k
    by (simp add: Seasons_index_def)
  have z: "Seasons_index ?s1 1 = []"
    by (simp add: Seasons_index_def zeroSeries_def)
  have "GetSeriesListDetail env4 tvdb0 (Some [Some 0, Some 0]) store0 net0 =
          ((Returned None, (store0(0 := ?s1'))(0 := ?s1'')), ?n2)"
    by (simp add: GetSeriesListDetail_def GetSeriesDetail_at_def s g1 g2)
  moreover have "Seasons_index (((store0(0 := ?s1'))(0 := ?s1'')) 0) 1 = [ep 10 1, ep 10 1]"
    by (simp add: Seasons_index_aggregate ov z) (simp add: ep_def)
  ultimately show ?thesis
    by blast
qed

subsection \<open>SearchSeries: a candidate whose fetch fails\<close>

lemma requests_GetSeriesByID:
  "GetSeriesByID env t i n = (r, n') \<Longrightarrow> requests n' = requests n @ [seriesURL t i]"
  by (auto simp: GetSeriesByID_def split: prod.splits sum.splits dest: requests_fetch)

lemma SearchSeries_loop_append:
  "SearchSeries_loop env t maxResults (gs1 @ gs2) st =
     (case SearchSeries_loop env t maxResults gs1 st of
        Continue st' \<Rightarrow> SearchSeries_loop env t maxResults gs2 st'
      | Break st' \<Rightarrow> Break st'
      | Return st' \<Rightarrow> Return st')"
  by (induction gs1 arbitrary: st) (auto split: flow.splits)

lemma SearchSeries_body_skip:
  assumes "ParseUint grp = (seriesID, None)" "seriesID \<notin> doneSeriesIDs st"
    and "GetSeriesByID env t seriesID (net st) = (Inl (SyntaxError m), n1)"
  shows "SearchSeries_body env t maxResults grp st = Continue (st\<lparr>err := None, net := n1\<rparr>)"
  using assms by (simp add: SearchSeries_body_def)

lemma SearchSeries_body_abort:
  assumes "ParseUint grp = (seriesID, None)" "seriesID \<notin> doneSeriesIDs st"
    and "GetSeriesByID env t seriesID (net st) = (Inl e, n1)" "\<forall>m. e \<noteq> SyntaxError m"
  shows "SearchSeries_body env t maxResults grp st = Return (st\<lparr>err := Some e, net := n1\<rparr>)"
  using assms by (cases e) (simp_all add: SearchSeries_body_def)

lemma ParseUint_examples:
  "ParseUint ''71663'' = (71663, None)"
  "ParseUint ''79349'' = (79349, None)"
  "ParseUint ''5'' = (5, None)"
  by (simp_all add: ParseUint_def cutoff_def maxUint64_def)

lemma searchURL_examples:
  "searchURL env_ok ''lost'' =
     ''http://thetvdb.com/?string=lost&searchseriesid=&tab=listseries&function=Search''"
  "searchURL env_ok ''x'' =
     ''http://thetvdb.com/?string=x&searchseriesid=&tab=listseries&function=Search''"
  "searchURL env_bad ''lost'' =
     ''http://thetvdb.com/?string=lost&searchseriesid=&tab=listseries&function=Search''"
  by (simp_all add: searchURL_def env_ok_def env_bad_def example_env_def)

lemma fetch_search_examples:
  "fetch env_ok (searchURL env_ok ''lost'') n =
     (Inr ''page'', \<lparr>world = (), requests = requests n @ [searchURL env_ok ''lost'']\<rparr>)"
  "fetch env_ok (searchURL env_ok ''x'') n =
     (Inr ''page2'', \<lparr>world = (), requests = requests n @ [searchURL env_ok ''x'']\<rparr>)"
  "fetch env_bad (searchURL env_bad ''lost'') n =
     (Inr ''page'', \<lparr>world = (), requests = requests n @ [searchURL env_bad ''lost'']\<rparr>)"
  unfolding searchURL_examples
  by (simp_all add: env_ok_def env_bad_def search_pages_def example_eval)

lemma matches_examples:
  "FindAllSubmatch_seriesId env_ok ''page'' = [''71663'', ''71663'', ''79349'']"
  "FindAllSubmatch_seriesId env_ok ''page2'' = [''79349'', ''5'', ''71663'']"
  "FindAllSubmatch_seriesId env_bad ''page'' = [''71663'', ''71663'', ''79349'']"
  by (simp_all add: env_ok_def env_bad_def example_env_def search_matches_def)

lemma GetSeriesByID_env_ok:
  "GetSeriesByID env_ok tvdb0 71663 n =
     (Inr (zeroSeries\<lparr>Series.ID := 71663\<rparr>),
      \<lparr>world = (), requests = requests n @ [seriesURL tvdb0 71663]\<rparr>)"
  "GetSeriesByID env_ok tvdb0 79349 n =
     (Inr (zeroSeries\<lparr>Series.ID := 79349\<rparr>),
      \<lparr>world = (), requests = requests n @ [seriesURL tvdb0 79349]\<rparr>)"
  "GetSeriesByID env_ok tvdb0 5 n =
     (Inl (TransportError ''connection refused''),
      \<lparr>world = (), requests = requests n @ [seriesURL tvdb0 5]\<rparr>)"
  by (simp_all add: GetSeriesByID_def env_ok_def search_pages_def example_eval zeroSeries_def)

lemma GetSeriesByID_env_bad:
  "GetSeriesByID env_bad tvdb0 71663 n =
     (Inl (SyntaxError ''unexpected EOF''),
      \<lparr>world = (), requests = requests n @ [seriesURL tvdb0 71663]\<rparr>)"
  "GetSeriesByID env_bad tvdb0 79349 n =
     (Inr (zeroSeries\<lparr>Series.ID := 79349\<rparr>),
      \<lparr>world = (), requests = requests n @ [seriesURL tvdb0 79349]\<rparr>)"
  by (simp_all add: GetSeriesByID_def env_bad_def search_pages_def example_eval zeroSeries_def)

lemmas search_eval =
  SearchSeries_body_def scan_init_def ParseUint_examples GetSeriesByID_env_ok
  GetSeriesByID_env_bad net0_def

lemma GetSeriesByID_env_eof:
  "GetSeriesByID env_eof tvdb0 71663 n =
     (Inl EOF, \<lparr>world = (), requests = requests n @ [seriesURL tvdb0 71663]\<rparr>)"
  by (simp add: GetSeriesByID_def env_eof_def search_pages_def example_eval)

lemma fetch_search_env_eof:
  "fetch env_eof (searchURL env_eof ''lost'') n =
     (Inr ''page'', \<lparr>world = (), requests = requests n @ [searchURL env_eof ''lost'']\<rparr>)"
  by (simp add: env_eof_def search_pages_def example_eval)

lemma matches_env_eof:
  "FindAllSubmatch_seriesId env_eof ''page'' = [''71663'', ''71663'', ''79349'']"
  by (simp add: env_eof_def example_env_def search_matches_def)

text \<open>
  C5, as stated, fails. The claim is about every fetch that fails because the document
  is malformed; the code skips a candidate only when the error is a
  \<^verbatim>\<open>*xml.SyntaxError\<close> (line 261). The page has the anchors of 71663, 71663 and 79349,
  and the catalog answers the request for 71663 with an empty body, which
  \<^verbatim>\<open>xml.Unmarshal\<close> refuses with \<^verbatim>\<open>io.EOF\<close>. The candidate is not skipped: the search
  returns at once with \<^verbatim>\<open>io.EOF\<close> and an empty list, and 79349 is never requested.
\<close>

theorem SearchSeries_malformed_document_counterexample:
  "Unmarshal_SeriesList env_eof [] = Inl EOF
   \<and> GetSeriesByID env_eof tvdb0 71663
        \<lparr>world = (), requests = [searchURL env_eof ''lost'']\<rparr> =
       (Inl EOF,
        \<lparr>world = (), requests = [searchURL env_eof ''lost'', seriesURL tvdb0 71663]\<rparr>)
   \<and> SearchSeries env_eof tvdb0 ''lost'' 0 net0 =
       ((\<lparr>Series = []\<rparr>, Some EOF),
        \<lparr>world = (), requests = [searchURL env_eof ''lost'', seriesURL tvdb0 71663]\<rparr>)"
  by (simp add: SearchSeries_def fetch_search_env_eof matches_env_eof SearchSeries_body_def
      scan_init_def ParseUint_examples GetSeriesByID_env_eof net0_def)
    (simp add: env_eof_def example_env_def)

text \<open>
  C5, amended. \<^verbatim>\<open>SearchSeries\<close> has fetched the page and scanned the matches before
  \<open>grp\<close> without stopping; \<open>grp\<close> is the number of a series not yet in
  \<open>doneSeriesIDs\<close>, and \<^verbatim>\<open>GetSeriesByID\<close> fails on it with \<open>e\<close>. If \<open>e\<close> is a
  \<^verbatim>\<open>*xml.SyntaxError\<close> the round ends with \<^verbatim>\<open>continue\<close>: nothing is added to the list
  or to the set, the error is set to nil, and the call returns what the scan of the
  matches after \<open>grp\<close> comes to. If \<open>e\<close> is any other error (a transport error, the
  wrong number of series, and also \<^verbatim>\<open>io.EOF\<close> or another error of the decoder that
  is not a \<^verbatim>\<open>*xml.SyntaxError\<close>), the call returns at once, with the list collected so
  far and with \<open>e\<close>.
\<close>

theorem SearchSeries_candidate_failure:
  assumes page: "fetch env (searchURL env name) n = (Inr buf, n0)"
    and groups: "FindAllSubmatch_seriesId env buf = before @ grp # after"
    and reach: "SearchSeries_loop env t maxResults before (scan_init n0) = Continue st"
    and parse: "ParseUint grp = (seriesID, None)"
    and new: "seriesID \<notin> doneSeriesIDs st"
    and fail: "GetSeriesByID env t seriesID (net st) = (Inl e, n1)"
  shows "((\<exists>m. e = SyntaxError m) \<longrightarrow>
            SearchSeries_body env t maxResults grp st = Continue (st\<lparr>err := None, net := n1\<rparr>)
            \<and> SearchSeries env t name maxResults n =
                (let st' = flow_state (SearchSeries_loop env t maxResults after
                                         (st\<lparr>err := None, net := n1\<rparr>))
                 in ((seriesList st', err st'), net st')))
       \<and> ((\<forall>m. e \<noteq> SyntaxError m) \<longrightarrow>
            SearchSeries_body env t maxResults grp st = Return (st\<lparr>err := Some e, net := n1\<rparr>)
            \<and> SearchSeries env t name maxResults n = ((seriesList st, Some e), n1))"
proof (intro conjI impI)
  assume "\<exists>m. e = SyntaxError m"
  then obtain m where "e = SyntaxError m" ..
  with parse new fail
  show b: "SearchSeries_body env t maxResults grp st = Continue (st\<lparr>err := None, net := n1\<rparr>)"
    by (simp add: SearchSeries_body_skip)
  show "SearchSeries env t name maxResults n =
          (let st' = flow_state (SearchSeries_loop env t maxResults after
                                   (st\<lparr>err := None, net := n1\<rparr>))
           in ((seriesList st', err st'), net st'))"
    by (simp add: SearchSeries_def page groups SearchSeries_loop_append reach b)
next
  assume "\<forall>m. e \<noteq> SyntaxError m"
  with parse new fail
  show b: "SearchSeries_body env t maxResults grp st = Return (st\<lparr>err := Some e, net := n1\<rparr>)"
    by (simp add: SearchSeries_body_abort)
  show "SearchSeries env t name maxResults n = ((seriesList st, Some e), n1)"
    by (simp add: SearchSeries_def page groups SearchSeries_loop_append reach b)
qed


theorem SearchSeries_candidate_failure_witness:
  "SearchSeries env_bad tvdb0 ''lost'' 0 net0 =
     ((\<lparr>Series = [zeroSeries\<lparr>Series.ID := 79349\<rparr>]\<rparr>, None),
      \<lparr>world = (),
       requests = [searchURL env_bad ''lost'', seriesURL tvdb0 71663, seriesURL tvdb0 71663,
                   seriesURL tvdb0 79349]\<rparr>)
   \<and> SearchSeries env_ok tvdb0 ''x'' 0 net0 =
     ((\<lparr>Series = [zeroSeries\<lparr>Series.ID := 79349\<rparr>]\<rparr>,
       Some (TransportError ''connection refused'')),
      \<lparr>world = (),
       requests = [searchURL env_ok ''x'', seriesURL tvdb0 79349, seriesURL tvdb0 5]\<rparr>)"
proof -
  let ?n0 = "\<lparr>world = (), requests = [searchURL env_bad ''lost'']\<rparr>"
  have a1: "FindAllSubmatch_seriesId env_bad ''page'' = [] @ ''71663'' # [''71663'', ''79349'']"
    by (simp add: matches_examples)
  have a2: "SearchSeries_loop env_bad tvdb0 0 [] (scan_init ?n0) = Continue (scan_init ?n0)"
    by simp
  have a3: "71663 \<notin> doneSeriesIDs (scan_init ?n0)"
    by (simp add: scan_init_def)
  have a: "SearchSeries env_bad tvdb0 ''lost'' 0 net0 =
     ((\<lparr>Series = [zeroSeries\<lparr>Series.ID := 79349\<rparr>]\<rparr>, None),
      \<lparr>world = (),
       requests = [searchURL env_bad ''lost'', seriesURL tvdb0 71663, seriesURL tvdb0 71663,
                   seriesURL tvdb0 79349]\<rparr>)"
    using SearchSeries_candidate_failure [of env_bad "''lost''" net0 "''page''" ?n0
        "[]" "''71663''" "[''71663'', ''79349'']" tvdb0 0 "scan_init ?n0" 71663
        "SyntaxError ''unexpected EOF''", OF _ a1 a2 _ a3]
    by (simp add: fetch_search_examples search_eval)
  let ?m0 = "\<lparr>world = (), requests = [searchURL env_ok ''x'']\<rparr>"
  let ?st = "\<lparr>seriesList = \<lparr>Series = [zeroSeries\<lparr>Series.ID := 79349\<rparr>]\<rparr>,
              doneSeriesIDs = {79349}, err = None,
              net = \<lparr>world = (), requests = [searchURL env_ok ''x'', seriesURL tvdb0 79349]\<rparr>\<rparr>"
  have b1: "FindAllSubmatch_seriesId env_ok ''page2'' = [''79349''] @ ''5'' # [''71663'']"
    by (simp add: matches_examples)
  have b2: "SearchSeries_loop env_ok tvdb0 0 [''79349''] (scan_init ?m0) = Continue ?st"
    by (simp add: search_eval)
  have b3: "5 \<notin> doneSeriesIDs ?st"
    by simp
  have b: "SearchSeries env_ok tvdb0 ''x'' 0 net0 =
     ((\<lparr>Series = [zeroSeries\<lparr>Series.ID := 79349\<rparr>]\<rparr>,
       Some (TransportError ''connection refused'')),
      \<lparr>world = (),
       requests = [searchURL env_ok ''x'', seriesURL tvdb0 79349, seriesURL tvdb0 5]\<rparr>)"
    using SearchSeries_candidate_failure [of env_ok "''x''" net0 "''page2''" ?m0
        "[''79349'']" "''5''" "[''71663'']" tvdb0 0 ?st 5
        "TransportError ''connection refused''", OF _ b1 b2 _ b3]
    by (simp add: fetch_search_examples search_eval)
  from a b show ?thesis ..
qed

subsection \<open>SearchSeries: the cap\<close>

text \<open>What one round of the loop can do to the list of results.\<close>

lemma SearchSeries_body_Continue:
  assumes "SearchSeries_body env t maxResults grp st = Continue st'"
  shows "seriesList st' = seriesList st
       \<or> (\<exists>s. Series (seriesList st') = Series (seriesList st) @ [s]
              \<and> int (length (Series (seriesList st'))) \<noteq> maxResults)"
  using assms
  by (auto simp: SearchSeries_body_def Let_def split: prod.splits if_splits sum.splits error.splits)

lemma SearchSeries_body_Return:
  assumes "SearchSeries_body env t maxResults grp st = Return st'"
  shows "seriesList st' = seriesList st"
  using assms
  by (auto simp: SearchSeries_body_def Let_def split: prod.splits if_splits sum.splits error.splits)

lemma SearchSeries_body_Break:
  assumes "SearchSeries_body env t maxResults grp st = Break st'"
  shows "int (length (Series (seriesList st'))) = maxResults
       \<and> (\<exists>s. Series (seriesList st') = Series (seriesList st) @ [s])"
  using assms
  by (auto simp: SearchSeries_body_def Let_def split: prod.splits if_splits sum.splits error.splits)

lemma SearchSeries_loop_bound:
  assumes "int (length (Series (seriesList st))) < maxResults"
  shows "int (length (Series (seriesList (flow_state (SearchSeries_loop env t maxResults gs st)))))
           \<le> maxResults
       \<and> (int (length (Series (seriesList (flow_state (SearchSeries_loop env t maxResults gs st)))))
            = maxResults \<longrightarrow>
          (\<exists>st'. SearchSeries_loop env t maxResults gs st = Break st'))"
  using assms
proof (induction gs arbitrary: st)
  case Nil
  then show ?case by simp
next
  case (Cons g gs)
  show ?case
  proof (cases "SearchSeries_body env t maxResults g st")
    case (Continue st')
    from SearchSeries_body_Continue [OF Continue] Cons.prems
    have "int (length (Series (seriesList st'))) < maxResults"
      by auto
    from Cons.IH [OF this] Continue show ?thesis
      by simp
  next
    case (Break st')
    with SearchSeries_body_Break [OF Break] show ?thesis
      by simp
  next
    case (Return st')
    with SearchSeries_body_Return [OF Return] Cons.prems show ?thesis
      by simp
  qed
qed

lemma SearchSeries_loop_Break_stays:
  "SearchSeries_loop env t maxResults gs st = Break st' \<Longrightarrow>
     SearchSeries_loop env t maxResults (gs @ rest) st = Break st'"
  by (simp add: SearchSeries_loop_append)

lemma SearchSeries_loop_Break_length:
  "SearchSeries_loop env t maxResults gs st = Break st' \<Longrightarrow>
     int (length (Series (seriesList st'))) = maxResults \<and> Series (seriesList st') \<noteq> []"
proof (induction gs arbitrary: st)
  case Nil
  then show ?case by simp
next
  case (Cons g gs)
  then show ?case
    by (cases "SearchSeries_body env t maxResults g st")
       (auto dest: SearchSeries_body_Break)
qed

lemma SearchSeries_body_same:
  assumes "int (length (Series (seriesList st))) + 1 \<noteq> m1"
    and "int (length (Series (seriesList st))) + 1 \<noteq> m2"
  shows "SearchSeries_body env t m1 grp st = SearchSeries_body env t m2 grp st"
  using assms
  by (auto simp: SearchSeries_body_def Let_def split: prod.splits sum.splits error.splits)

lemma SearchSeries_body_length:
  "length (Series (seriesList (flow_state (SearchSeries_body env t maxResults grp st))))
     \<le> length (Series (seriesList st)) + 1"
  by (auto simp: SearchSeries_body_def Let_def split: prod.splits sum.splits error.splits)

lemma SearchSeries_loop_same:
  assumes "m1 \<le> 0 \<or> int (length (Series (seriesList st)) + length gs) < m1"
    and "m2 \<le> 0 \<or> int (length (Series (seriesList st)) + length gs) < m2"
  shows "SearchSeries_loop env t m1 gs st = SearchSeries_loop env t m2 gs st"
  using assms
proof (induction gs arbitrary: st)
  case Nil
  then show ?case by simp
next
  case (Cons g gs)
  from Cons.prems have b: "SearchSeries_body env t m1 g st = SearchSeries_body env t m2 g st"
    by (intro SearchSeries_body_same) auto
  show ?case
  proof (cases "SearchSeries_body env t m2 g st")
    case (Continue st')
    with SearchSeries_body_length [of env t m2 g st]
    have "length (Series (seriesList st')) \<le> length (Series (seriesList st)) + 1"
      by simp
    with Cons.prems have "m1 \<le> 0 \<or> int (length (Series (seriesList st')) + length gs) < m1"
      "m2 \<le> 0 \<or> int (length (Series (seriesList st')) + length gs) < m2"
      by auto
    from Cons.IH [OF this] b Continue show ?thesis
      by simp
  next
    case (Break st')
    with b show ?thesis by simp
  next
    case (Return st')
    with b show ?thesis by simp
  qed
qed

text \<open>
  C8. With a positive \<open>maxResults\<close> the list never gets longer than \<open>maxResults\<close>;
  and when the scan of the matches \<open>gs\<close> ends with a list of that length, it ended
  with \<^verbatim>\<open>break\<close>, and with any further matches \<open>rest\<close> after \<open>gs\<close> the scan ends in the
  very same state, network included: nothing of \<open>rest\<close> is fetched. With
  \<open>maxResults \<le> 0\<close> no round ends with \<^verbatim>\<open>break\<close>, and the scan does what it does under
  any cap too large to be reached (one above the number of matches).
\<close>

theorem SearchSeries_stops_at_maxResults:
  "(0 < maxResults \<longrightarrow>
      int (length (Series (seriesList (flow_state
             (SearchSeries_loop env t maxResults gs (scan_init n)))))) \<le> maxResults
      \<and> (int (length (Series (seriesList (flow_state
                (SearchSeries_loop env t maxResults gs (scan_init n)))))) = maxResults \<longrightarrow>
           (\<exists>st'. SearchSeries_loop env t maxResults gs (scan_init n) = Break st')
           \<and> SearchSeries_loop env t maxResults (gs @ rest) (scan_init n)
               = SearchSeries_loop env t maxResults gs (scan_init n)))
   \<and> (maxResults \<le> 0 \<longrightarrow>
        (\<forall>st'. SearchSeries_loop env t maxResults gs (scan_init n) \<noteq> Break st')
        \<and> (\<forall>big. int (length gs) < big \<longrightarrow>
             SearchSeries_loop env t maxResults gs (scan_init n)
               = SearchSeries_loop env t big gs (scan_init n)))"
proof (intro conjI impI allI)
  assume m: "0 < maxResults"
  then have i: "int (length (Series (seriesList (scan_init n)))) < maxResults"
    by (simp add: scan_init_def)
  from SearchSeries_loop_bound [OF i]
  show "int (length (Series (seriesList (flow_state
          (SearchSeries_loop env t maxResults gs (scan_init n)))))) \<le> maxResults"
    by blast
  assume "int (length (Series (seriesList (flow_state
            (SearchSeries_loop env t maxResults gs (scan_init n)))))) = maxResults"
  with SearchSeries_loop_bound [OF i, of env t gs]
  show b: "\<exists>st'. SearchSeries_loop env t maxResults gs (scan_init n) = Break st'"
    by blast
  then show "SearchSeries_loop env t maxResults (gs @ rest) (scan_init n)
               = SearchSeries_loop env t maxResults gs (scan_init n)"
    by (auto simp: SearchSeries_loop_Break_stays)
next
  fix st'
  assume "maxResults \<le> 0"
  then show "SearchSeries_loop env t maxResults gs (scan_init n) \<noteq> Break st'"
    using SearchSeries_loop_Break_length [of env t maxResults gs "scan_init n" st']
    by (cases "Series (seriesList st')") auto
next
  fix big
  assume "maxResults \<le> 0" "int (length gs) < big"
  then show "SearchSeries_loop env t maxResults gs (scan_init n)
               = SearchSeries_loop env t big gs (scan_init n)"
    by (intro SearchSeries_loop_same) (simp_all add: scan_init_def)
qed

theorem SearchSeries_stops_at_maxResults_witness:
  "SearchSeries_loop env_ok tvdb0 1 [''71663'', ''71663'', ''79349''] (scan_init net0) =
     Break \<lparr>seriesList = \<lparr>Series = [zeroSeries\<lparr>Series.ID := 71663\<rparr>]\<rparr>,
            doneSeriesIDs = {71663}, err = None,
            net = \<lparr>world = (), requests = [seriesURL tvdb0 71663]\<rparr>\<rparr>
   \<and> SearchSeries_loop env_ok tvdb0 1 ([''71663''] @ [''71663'', ''79349'']) (scan_init net0) =
       SearchSeries_loop env_ok tvdb0 1 [''71663''] (scan_init net0)
   \<and> SearchSeries_loop env_ok tvdb0 0 [''71663'', ''71663'', ''79349''] (scan_init net0) =
     Continue \<lparr>seriesList = \<lparr>Series = [zeroSeries\<lparr>Series.ID := 71663\<rparr>,
                                          zeroSeries\<lparr>Series.ID := 79349\<rparr>]\<rparr>,
               doneSeriesIDs = {79349, 71663}, err = None,
               net = \<lparr>world = (), requests = [seriesURL tvdb0 71663, seriesURL tvdb0 79349]\<rparr>\<rparr>
   \<and> SearchSeries_loop env_ok tvdb0 0 [''71663'', ''71663'', ''79349''] (scan_init net0) =
       SearchSeries_loop env_ok tvdb0 4 [''71663'', ''71663'', ''79349''] (scan_init net0)"
proof -
  have a: "SearchSeries_loop env_ok tvdb0 1 [''71663''] (scan_init net0) =
     Break \<lparr>seriesList = \<lparr>Series = [zeroSeries\<lparr>Series.ID := 71663\<rparr>]\<rparr>,
            doneSeriesIDs = {71663}, err = None,
            net = \<lparr>world = (), requests = [seriesURL tvdb0 71663]\<rparr>\<rparr>"
    by (simp add: search_eval)
  have b: "SearchSeries_loop env_ok tvdb0 0 [''71663'', ''71663'', ''79349''] (scan_init net0) =
     Continue \<lparr>seriesList = \<lparr>Series = [zeroSeries\<lparr>Series.ID := 71663\<rparr>,
                                          zeroSeries\<lparr>Series.ID := 79349\<rparr>]\<rparr>,
               doneSeriesIDs = {79349, 71663}, err = None,
               net = \<lparr>world = (), requests = [seriesURL tvdb0 71663, seriesURL tvdb0 79349]\<rparr>\<rparr>"
    by (simp add: search_eval)
  from SearchSeries_stops_at_maxResults [of 1 env_ok tvdb0 "[''71663'']" net0
      "[''71663'', ''79349'']"] a
  have c: "SearchSeries_loop env_ok tvdb0 1 ([''71663''] @ [''71663'', ''79349'']) (scan_init net0) =
       SearchSeries_loop env_ok tvdb0 1 [''71663''] (scan_init net0)"
    by simp
  from SearchSeries_stops_at_maxResults [of 0 env_ok tvdb0 "[''71663'', ''71663'', ''79349'']" net0]
  have d: "SearchSeries_loop env_ok tvdb0 0 [''71663'', ''71663'', ''79349''] (scan_init net0) =
       SearchSeries_loop env_ok tvdb0 4 [''71663'', ''71663'', ''79349''] (scan_init net0)"
    by simp
  from a b c d show ?thesis
    by simp
qed

subsection \<open>SearchSeries: the set of IDs done\<close>

lemma SearchSeries_body_inv:
  assumes "distinct ids" "set ids = doneSeriesIDs st"
    and "list_all2 (\<lambda>i s. \<exists>n0 n1. GetSeriesByID env t i n0 = (Inr s, n1)) ids
           (Series (seriesList st))"
  shows "\<exists>ids'. distinct ids' \<and> set ids' = doneSeriesIDs (flow_state (SearchSeries_body env t maxResults grp st))
         \<and> list_all2 (\<lambda>i s. \<exists>n0 n1. GetSeriesByID env t i n0 = (Inr s, n1)) ids'
             (Series (seriesList (flow_state (SearchSeries_body env t maxResults grp st))))"
proof -
  obtain i perr where p: "ParseUint grp = (i, perr)"
    by (cases "ParseUint grp")
  obtain r n' where g: "GetSeriesByID env t i (net st) = (r, n')"
    by (cases "GetSeriesByID env t i (net st)")
  show ?thesis
  proof (cases "i \<notin> doneSeriesIDs st \<and> perr = None \<and> (\<exists>s. r = Inr s)")
    case True
    then obtain s where s: "r = Inr s" by blast
    from True s p g assms
    have "distinct (ids @ [i])"
      "set (ids @ [i]) = doneSeriesIDs (flow_state (SearchSeries_body env t maxResults grp st))"
      "list_all2 (\<lambda>i s. \<exists>n0 n1. GetSeriesByID env t i n0 = (Inr s, n1)) (ids @ [i])
             (Series (seriesList (flow_state (SearchSeries_body env t maxResults grp st))))"
      by (auto simp: SearchSeries_body_def Let_def intro!: list_all2_appendI)
    then show ?thesis by blast
  next
    case False
    with p g have "doneSeriesIDs (flow_state (SearchSeries_body env t maxResults grp st)) = doneSeriesIDs st"
      "seriesList (flow_state (SearchSeries_body env t maxResults grp st)) = seriesList st"
      by (auto simp: SearchSeries_body_def Let_def split: sum.splits error.splits)
    with assms show ?thesis by auto
  qed
qed

lemma SearchSeries_loop_inv:
  assumes "\<exists>ids. distinct ids \<and> set ids = doneSeriesIDs st
         \<and> list_all2 (\<lambda>i s. \<exists>n0 n1. GetSeriesByID env t i n0 = (Inr s, n1)) ids
             (Series (seriesList st))"
  shows "\<exists>ids. distinct ids \<and> set ids = doneSeriesIDs (flow_state (SearchSeries_loop env t maxResults gs st))
         \<and> list_all2 (\<lambda>i s. \<exists>n0 n1. GetSeriesByID env t i n0 = (Inr s, n1)) ids
             (Series (seriesList (flow_state (SearchSeries_loop env t maxResults gs st))))"
  using assms
proof (induction gs arbitrary: st)
  case Nil
  then show ?case by simp
next
  case (Cons g gs)
  from Cons.prems obtain ids where "distinct ids" "set ids = doneSeriesIDs st"
    "list_all2 (\<lambda>i s. \<exists>n0 n1. GetSeriesByID env t i n0 = (Inr s, n1)) ids (Series (seriesList st))"
    by blast
  from SearchSeries_body_inv [OF this, of maxResults g]
  have b: "\<exists>ids'. distinct ids' \<and> set ids' = doneSeriesIDs (flow_state (SearchSeries_body env t maxResults g st))
         \<and> list_all2 (\<lambda>i s. \<exists>n0 n1. GetSeriesByID env t i n0 = (Inr s, n1)) ids'
             (Series (seriesList (flow_state (SearchSeries_body env t maxResults g st))))" .
  show ?case
  proof (cases "SearchSeries_body env t maxResults g st")
    case (Continue st')
    with b Cons.IH [of st'] show ?thesis by simp
  next
    case (Break st')
    with b show ?thesis by simp
  next
    case (Return st')
    with b show ?thesis by simp
  qed
qed

lemma SearchSeries_body_done_subset:
  "doneSeriesIDs (flow_state (SearchSeries_body env t maxResults grp st))
     \<subseteq> insert (fst (ParseUint grp)) (doneSeriesIDs st)"
  by (auto simp: SearchSeries_body_def Let_def split: prod.splits sum.splits error.splits)

lemma SearchSeries_loop_done_subset:
  "doneSeriesIDs (flow_state (SearchSeries_loop env t maxResults gs st))
     \<subseteq> doneSeriesIDs st \<union> (\<lambda>g. fst (ParseUint g)) ` set gs"
proof (induction gs arbitrary: st)
  case Nil
  then show ?case by simp
next
  case (Cons g gs)
  show ?case
  proof (cases "SearchSeries_body env t maxResults g st")
    case (Continue st')
    with SearchSeries_body_done_subset [of env t maxResults g st] Cons.IH [of st']
    show ?thesis by auto
  next
    case (Break st')
    with SearchSeries_body_done_subset [of env t maxResults g st] show ?thesis by auto
  next
    case (Return st')
    with SearchSeries_body_done_subset [of env t maxResults g st] show ?thesis by auto
  qed
qed

lemma SearchSeries_body_fetches:
  assumes "ParseUint grp = (i, None)" "i \<notin> doneSeriesIDs st"
  shows "requests (net (flow_state (SearchSeries_body env t maxResults grp st)))
           = requests (net st) @ [seriesURL t i]"
proof -
  obtain r n' where g: "GetSeriesByID env t i (net st) = (r, n')"
    by (cases "GetSeriesByID env t i (net st)")
  from requests_GetSeriesByID [OF g] g assms show ?thesis
    by (auto simp: SearchSeries_body_def Let_def split: sum.splits error.splits)
qed

lemma fetched_ids_are_fields:
  assumes "list_all2 (\<lambda>i s. \<exists>n0 n1. GetSeriesByID env t i n0 = (Inr s, n1)) ids l"
    and "\<forall>i\<in>set ids. \<forall>s n0 n1. GetSeriesByID env t i n0 = (Inr s, n1) \<longrightarrow> Series.ID s = i"
  shows "map Series.ID l = ids"
  using assms by (induction ids l rule: list_all2_induct) auto

lemma GetSeriesByID_env_same:
  "GetSeriesByID env_same tvdb0 71663 n =
     (Inr (zeroSeries\<lparr>Series.ID := 79349\<rparr>),
      \<lparr>world = (), requests = requests n @ [seriesURL tvdb0 71663]\<rparr>)"
  "GetSeriesByID env_same tvdb0 79349 n =
     (Inr (zeroSeries\<lparr>Series.ID := 79349\<rparr>),
      \<lparr>world = (), requests = requests n @ [seriesURL tvdb0 79349]\<rparr>)"
  by (simp_all add: GetSeriesByID_def env_same_def search_pages_def example_eval zeroSeries_def)

text \<open>
  C10, as stated, fails. The claim says that \<open>doneSeriesIDs\<close> is at every point the
  set of the IDs of the series in the list. The set holds the numbers found in the
  page, and the loop never reads the field \<open>ID\<close> of a series it was given. The page
  has the anchors of 71663 and 79349, and the catalog answers both requests with the
  series 79349: the set is 71663 and 79349, and the list holds the series 79349
  twice.
\<close>

theorem doneSeriesIDs_equal_output_IDs_counterexample:
  "SearchSeries_loop env_same tvdb0 0 [''71663'', ''79349''] (scan_init net0) =
     Continue \<lparr>seriesList = \<lparr>Series = [zeroSeries\<lparr>Series.ID := 79349\<rparr>,
                                          zeroSeries\<lparr>Series.ID := 79349\<rparr>]\<rparr>,
               doneSeriesIDs = {79349, 71663}, err = None,
               net = \<lparr>world = (), requests = [seriesURL tvdb0 71663, seriesURL tvdb0 79349]\<rparr>\<rparr>
   \<and> map Series.ID (Series (seriesList (flow_state
        (SearchSeries_loop env_same tvdb0 0 [''71663'', ''79349''] (scan_init net0)))))
       = [79349, 79349]
   \<and> doneSeriesIDs (flow_state
        (SearchSeries_loop env_same tvdb0 0 [''71663'', ''79349''] (scan_init net0)))
       \<noteq> Series.ID ` set (Series (seriesList (flow_state
           (SearchSeries_loop env_same tvdb0 0 [''71663'', ''79349''] (scan_init net0)))))"
  by (simp add: SearchSeries_body_def scan_init_def ParseUint_examples GetSeriesByID_env_same
      net0_def)

text \<open>
  C10, amended. At every point of the scan (after any list \<open>gs\<close> of matches, however
  the scan ended) \<open>doneSeriesIDs\<close> is the set of the IDs under which the series now in
  the list were fetched: there are distinct IDs, one for each series of the list and
  in its order, each series being what a successful \<^verbatim>\<open>GetSeriesByID\<close> of its ID
  returned, and \<open>doneSeriesIDs\<close> is exactly these IDs. It is the set of the fields
  \<open>ID\<close> of the series in the list when the catalog answers the requests of the scan
  with series that carry the requested ID. And an ID is not recorded by a fetch that
  fails: when the fetch for \<open>i\<close> fails with a \<^verbatim>\<open>*xml.SyntaxError\<close> and the scan goes on
  over matches \<open>between\<close> that are not \<open>i\<close>, then \<open>i\<close> is still not in
  \<open>doneSeriesIDs\<close>, and the next occurrence of \<open>i\<close> sends the request for \<open>i\<close> again.
\<close>

theorem doneSeriesIDs_only_after_success:
  "(\<exists>ids. distinct ids
        \<and> set ids = doneSeriesIDs (flow_state (SearchSeries_loop env t maxResults gs (scan_init n)))
        \<and> list_all2 (\<lambda>i s. \<exists>n0 n1. GetSeriesByID env t i n0 = (Inr s, n1)) ids
            (Series (seriesList (flow_state (SearchSeries_loop env t maxResults gs (scan_init n))))))
   \<and> ((\<forall>g\<in>set gs. \<forall>s n0 n1.
          GetSeriesByID env t (fst (ParseUint g)) n0 = (Inr s, n1) \<longrightarrow>
            Series.ID s = fst (ParseUint g)) \<longrightarrow>
        doneSeriesIDs (flow_state (SearchSeries_loop env t maxResults gs (scan_init n)))
          = Series.ID ` set (Series (seriesList (flow_state
              (SearchSeries_loop env t maxResults gs (scan_init n))))))
   \<and> (ParseUint grp = (i, None) \<and> i \<notin> doneSeriesIDs st
        \<and> GetSeriesByID env t i (net st) = (Inl (SyntaxError m), n1)
        \<and> SearchSeries_loop env t maxResults between (st\<lparr>err := None, net := n1\<rparr>) = Continue st2
        \<and> (\<forall>g \<in> set between. fst (ParseUint g) \<noteq> i) \<longrightarrow>
          SearchSeries_loop env t maxResults (grp # between) st = Continue st2
          \<and> i \<notin> doneSeriesIDs st2
          \<and> requests (net (flow_state (SearchSeries_body env t maxResults grp st2)))
              = requests (net st2) @ [seriesURL t i])"
proof (intro conjI impI)
  let ?st' = "flow_state (SearchSeries_loop env t maxResults gs (scan_init n))"
  have "\<exists>ids. distinct ids \<and> set ids = doneSeriesIDs (scan_init n)
         \<and> list_all2 (\<lambda>i s. \<exists>n0 n1. GetSeriesByID env t i n0 = (Inr s, n1)) ids
             (Series (seriesList (scan_init n)))"
    by (simp add: scan_init_def)
  then show inv: "\<exists>ids. distinct ids \<and> set ids = doneSeriesIDs ?st'
        \<and> list_all2 (\<lambda>i s. \<exists>n0 n1. GetSeriesByID env t i n0 = (Inr s, n1)) ids
            (Series (seriesList ?st'))"
    by (rule SearchSeries_loop_inv)
  assume h: "\<forall>g\<in>set gs. \<forall>s n0 n1.
          GetSeriesByID env t (fst (ParseUint g)) n0 = (Inr s, n1) \<longrightarrow>
            Series.ID s = fst (ParseUint g)"
  from inv obtain ids where ids: "set ids = doneSeriesIDs ?st'"
    "list_all2 (\<lambda>i s. \<exists>n0 n1. GetSeriesByID env t i n0 = (Inr s, n1)) ids (Series (seriesList ?st'))"
    by blast
  from SearchSeries_loop_done_subset [of env t maxResults gs "scan_init n"] ids(1)
  have "set ids \<subseteq> (\<lambda>g. fst (ParseUint g)) ` set gs"
    by (simp add: scan_init_def)
  with h have "\<forall>i\<in>set ids. \<forall>s n0 n1. GetSeriesByID env t i n0 = (Inr s, n1) \<longrightarrow> Series.ID s = i"
    by blast
  from fetched_ids_are_fields [OF ids(2) this]
  have "map Series.ID (Series (seriesList ?st')) = ids" .
  then have "Series.ID ` set (Series (seriesList ?st')) = set ids"
    by (metis set_map)
  with ids(1) show "doneSeriesIDs ?st' = Series.ID ` set (Series (seriesList ?st'))"
    by simp
next
  assume a: "ParseUint grp = (i, None) \<and> i \<notin> doneSeriesIDs st
        \<and> GetSeriesByID env t i (net st) = (Inl (SyntaxError m), n1)
        \<and> SearchSeries_loop env t maxResults between (st\<lparr>err := None, net := n1\<rparr>) = Continue st2
        \<and> (\<forall>g \<in> set between. fst (ParseUint g) \<noteq> i)"
  then have b: "SearchSeries_body env t maxResults grp st = Continue (st\<lparr>err := None, net := n1\<rparr>)"
    by (simp add: SearchSeries_body_skip)
  with a show "SearchSeries_loop env t maxResults (grp # between) st = Continue st2"
    by simp
  from SearchSeries_loop_done_subset [of env t maxResults between "st\<lparr>err := None, net := n1\<rparr>"] a
  show i: "i \<notin> doneSeriesIDs st2"
    by auto
  from a i show "requests (net (flow_state (SearchSeries_body env t maxResults grp st2)))
              = requests (net st2) @ [seriesURL t i]"
    by (simp add: SearchSeries_body_fetches)
qed

theorem doneSeriesIDs_only_after_success_witness:
  "SearchSeries_loop env_bad tvdb0 0 [''71663'', ''79349''] (scan_init net0) =
     Continue \<lparr>seriesList = \<lparr>Series = [zeroSeries\<lparr>Series.ID := 79349\<rparr>]\<rparr>,
               doneSeriesIDs = {79349}, err = None,
               net = \<lparr>world = (), requests = [seriesURL tvdb0 71663, seriesURL tvdb0 79349]\<rparr>\<rparr>
   \<and> requests (net (flow_state (SearchSeries_body env_bad tvdb0 0 ''71663''
         \<lparr>seriesList = \<lparr>Series = [zeroSeries\<lparr>Series.ID := 79349\<rparr>]\<rparr>,
          doneSeriesIDs = {79349}, err = None,
          net = \<lparr>world = (), requests = [seriesURL tvdb0 71663, seriesURL tvdb0 79349]\<rparr>\<rparr>)))
       = [seriesURL tvdb0 71663, seriesURL tvdb0 79349, seriesURL tvdb0 71663]
   \<and> (\<exists>ids. distinct ids \<and> set ids = {79349}
          \<and> list_all2 (\<lambda>i s. \<exists>n0 n1. GetSeriesByID env_bad tvdb0 i n0 = (Inr s, n1)) ids
               [zeroSeries\<lparr>Series.ID := 79349\<rparr>])
   \<and> {79349} = Series.ID ` set [zeroSeries\<lparr>Series.ID := 79349\<rparr>]"
proof -
  let ?st2 = "\<lparr>seriesList = \<lparr>Series = [zeroSeries\<lparr>Series.ID := 79349\<rparr>]\<rparr>,
          doneSeriesIDs = {79349}, err = None,
          net = \<lparr>world = (), requests = [seriesURL tvdb0 71663, seriesURL tvdb0 79349]\<rparr>\<rparr>"
  let ?n1 = "\<lparr>world = (), requests = [seriesURL tvdb0 71663]\<rparr>"
  have p: "ParseUint ''71663'' = (71663, None)"
    by (simp add: ParseUint_examples)
  have new: "71663 \<notin> doneSeriesIDs (scan_init net0)"
    by (simp add: scan_init_def)
  have f: "GetSeriesByID env_bad tvdb0 71663 (net (scan_init net0))
             = (Inl (SyntaxError ''unexpected EOF''), ?n1)"
    by (simp add: search_eval)
  have b: "SearchSeries_loop env_bad tvdb0 0 [''79349'']
             ((scan_init net0)\<lparr>err := None, net := ?n1\<rparr>) = Continue ?st2"
    by (simp add: search_eval)
  have o: "\<forall>g \<in> set [''79349'']. fst (ParseUint g) \<noteq> 71663"
    by (simp add: ParseUint_examples)
  have e: "SearchSeries_loop env_bad tvdb0 0 [''71663'', ''79349''] (scan_init net0) = Continue ?st2"
    by (simp add: search_eval)
  have same: "\<forall>g\<in>set [''71663'', ''79349'']. \<forall>s n0 n1.
          GetSeriesByID env_bad tvdb0 (fst (ParseUint g)) n0 = (Inr s, n1) \<longrightarrow>
            Series.ID s = fst (ParseUint g)"
    by (auto simp: ParseUint_examples GetSeriesByID_env_bad)
  note T = doneSeriesIDs_only_after_success [of env_bad tvdb0 0 "[''71663'', ''79349'']" net0
      "''71663''" 71663 "scan_init net0" "''unexpected EOF''" ?n1 "[''79349'']" ?st2]
  from conjunct1 [OF T]
  have inv: "\<exists>ids. distinct ids \<and> set ids = {79349}
          \<and> list_all2 (\<lambda>i s. \<exists>n0 n1. GetSeriesByID env_bad tvdb0 i n0 = (Inr s, n1)) ids
               [zeroSeries\<lparr>Series.ID := 79349\<rparr>]"
    unfolding e by simp
  from conjunct1 [OF conjunct2 [OF T]] same
  have fields: "{79349} = Series.ID ` set [zeroSeries\<lparr>Series.ID := 79349\<rparr>]"
    unfolding e by simp
  from conjunct2 [OF conjunct2 [OF T]] p new f b o
  have "requests (net (flow_state (SearchSeries_body env_bad tvdb0 0 ''71663'' ?st2)))
          = requests (net ?st2) @ [seriesURL tvdb0 71663]"
    by blast
  then have "requests (net (flow_state (SearchSeries_body env_bad tvdb0 0 ''71663'' ?st2)))
          = [seriesURL tvdb0 71663, seriesURL tvdb0 79349, seriesURL tvdb0 71663]"
    by simp
  with e inv fields show ?thesis
    by blast
qed

subsection \<open>SearchSeries: duplicates\<close>




text \<open>\<open>spec_first_occurrences\<close> is \<open>remdups\<close> read from the left.\<close>

lemma unseen_snoc:
  "unseen seen (ids @ [i]) = unseen seen ids @ (if i \<in> seen \<union> set ids then [] else [i])"
  by (induction ids arbitrary: seen) auto

lemma spec_first_occurrences_remdups:
  "spec_first_occurrences ids = rev (remdups (rev ids))"
  unfolding spec_first_occurrences_def
  by (induction ids rule: rev_induct) (auto simp: unseen_snoc)






end
